theory Spec2Isabelle
  imports Complex_Main "HOL-Library.Sublist" "HOL-Library.Multiset" "HOL-Library.Log_Nat"
begin

section \<open>The insurance quote engine of \<^verbatim>\<open>main.py\<close>\<close>

text \<open>
  The development embeds the recommendation engine of the service, the function
  \<^verbatim>\<open>get_quote\<close>, together with the values it reads from the policy catalog.
  Every Python exception the function can raise on the modelled inputs is a value of
  the type \<open>error\<close>; a computation returns \<open>Inl e\<close> when it raises \<open>e\<close>.
\<close>

subsection \<open>Data model\<close>

text \<open>
  A Python \<^verbatim>\<open>float\<close> is an IEEE 754 double: a finite value, one of the two infinities, or
  NaN. A finite double is kept as the rational number it denotes; the two zeros are
  identified, since no operation of the engine tells them apart.
\<close>

datatype pyfloat = Finite rat | PosInf | NegInf | NaN

text \<open>
  The catalog is what \<^verbatim>\<open>json.load\<close> returns, so a premium is a Python value: an integer
  (Python's unbounded \<^verbatim>\<open>int\<close>), a float (which \<^verbatim>\<open>json.load\<close> reads from a number with a
  fraction or an exponent and from the literals \<^verbatim>\<open>Infinity\<close>, \<^verbatim>\<open>-Infinity\<close> and \<^verbatim>\<open>NaN\<close>), a
  string, or \<^verbatim>\<open>None\<close>. A list or an object behaves like a string in the arithmetic of the
  engine, which raises \<^verbatim>\<open>TypeError\<close> on each of them, and a boolean behaves like the
  integer 0 or 1. The rational of a finite float premium is meant to be a double; the
  operations round their results whatever the operands are.
\<close>

datatype pyval = PyInt int | PyFloat pyfloat | PyStr string | PyNone

text \<open>\<^verbatim>\<open>float('inf')\<close>, the default of the premium lookup.\<close>

abbreviation PyInf :: pyval where
  "PyInf \<equiv> PyFloat PosInf"

datatype error =
  IndexError | ZeroDivisionError | TypeError | ValueError | OverflowError | ValidationError

text \<open>
  \<^verbatim>\<open>class Policy\<close>. A \<^verbatim>\<open>dict\<close> is an association list in insertion order (its keys
  are distinct in any value that Python builds). \<^verbatim>\<open>sum_insured\<close> is a list of integer
  coverage tiers, \<^verbatim>\<open>eligibility\<close> maps its keys to integers.
\<close>

record Policy =
  policy_id :: string
  name :: string
  type :: string
  description :: string
  sum_insured :: "int list"
  premium_yearly :: "(string \<times> pyval) list"
  eligibility :: "(string \<times> int) list"
  exclusions :: "string list"
  riders :: "string list"

text \<open>\<^verbatim>\<open>class UserProfile\<close>: five required fields and two optional ones.\<close>

record UserProfile =
  age :: int
  dependents_count :: int
  annual_income_band :: int
  risk_tolerance :: string
  preferred_premium_band :: int
  vehicle_type :: "string option"
  health_flags :: "string list option"

text \<open>An entry of \<^verbatim>\<open>scored_policies\<close>: the dictionary \<^verbatim>\<open>{"policy": policy, "score": score}\<close>.\<close>

record scored_policy =
  policy :: Policy
  score :: int

subsection \<open>Double precision arithmetic\<close>

text \<open>Rounding a rational to the nearest integer, a tie going to the even neighbour.\<close>

definition round_half_even :: "rat \<Rightarrow> int" where
  "round_half_even x =
     (let f = \<lfloor>x\<rfloor>; r = x - of_int f
      in if r < 1/2 then f else if 1/2 < r then f + 1 else if even f then f else f + 1)"

text \<open>
  The binary exponent of a positive rational \<open>q\<close>: the integer \<open>e\<close> with
  \<open>2 powi e \<le> q < 2 powi (e + 1)\<close>, from the bit lengths of numerator and denominator.
\<close>

definition ilog2 :: "rat \<Rightarrow> int" where
  "ilog2 q =
     (let d = bitlen (fst (quotient_of q)) - bitlen (snd (quotient_of q))
      in if 2 powi d \<le> q then d else d - 1)"

text \<open>
  The double nearest to a rational, ties to even, before any range check. A double has
  53 significant bits, so between \<open>2 powi e\<close> and \<open>2 powi (e + 1)\<close> the doubles are the
  multiples of \<open>2 powi (e - 52)\<close>; below \<open>2 powi (- 1022)\<close>, in the subnormal range, the
  spacing stays \<open>2 powi (- 1074)\<close>.
\<close>

definition round_double :: "rat \<Rightarrow> rat" where
  "round_double q =
     (if q = 0 then 0
      else (let e = max (ilog2 \<bar>q\<bar>) (- 1022); u = 2 powi (e - 52)
            in sgn q * (of_int (round_half_even (\<bar>q\<bar> / u)) * u)))"

text \<open>The float literals \<^verbatim>\<open>0.2\<close> and \<^verbatim>\<open>0.5\<close> of the source: the doubles nearest to them.\<close>

definition literal_0_2 :: rat where
  "literal_0_2 = round_double (2/10)"

definition literal_0_5 :: rat where
  "literal_0_5 = round_double (5/10)"

text \<open>
  Converting an \<^verbatim>\<open>int\<close> operand to a float: the nearest double, and \<^verbatim>\<open>OverflowError\<close>
  when that is beyond the largest double, that is when it reaches \<open>2 ^ 1024\<close>.
\<close>

definition float_of_int :: "int \<Rightarrow> error + rat" where
  "float_of_int n =
     (let r = round_double (of_int n)
      in if 2 ^ 1024 \<le> \<bar>r\<bar> then Inl OverflowError else Inr r)"

text \<open>
  The result of a float operation whose exact value is \<open>q\<close>: the nearest double, and an
  infinity when that is out of range (float subtraction and division do not raise).
\<close>

definition ieee :: "rat \<Rightarrow> pyfloat" where
  "ieee q =
     (let r = round_double q
      in if 2 ^ 1024 \<le> r then PosInf else if r \<le> - (2 ^ 1024) then NegInf else Finite r)"

text \<open>\<^verbatim>\<open>x - y\<close>, \<^verbatim>\<open>abs(x)\<close> and \<^verbatim>\<open>x / y\<close> on floats, for a finite \<open>y\<close> (non-zero in the division).\<close>

fun float_sub :: "pyfloat \<Rightarrow> rat \<Rightarrow> pyfloat" where
  "float_sub (Finite x) y = ieee (x - y)"
| "float_sub PosInf y = PosInf"
| "float_sub NegInf y = NegInf"
| "float_sub NaN y = NaN"

fun float_abs :: "pyfloat \<Rightarrow> pyfloat" where
  "float_abs (Finite x) = Finite \<bar>x\<bar>"
| "float_abs PosInf = PosInf"
| "float_abs NegInf = PosInf"
| "float_abs NaN = NaN"

fun float_div :: "pyfloat \<Rightarrow> rat \<Rightarrow> pyfloat" where
  "float_div (Finite x) y = ieee (x / y)"
| "float_div PosInf y = (if 0 < y then PosInf else NegInf)"
| "float_div NegInf y = (if 0 < y then NegInf else PosInf)"
| "float_div NaN y = NaN"

text \<open>\<^verbatim>\<open>x < c\<close> for a float \<open>x\<close> and a finite constant \<open>c\<close>; a comparison with NaN is false.\<close>

fun float_lt :: "pyfloat \<Rightarrow> rat \<Rightarrow> bool" where
  "float_lt (Finite q) c = (q < c)"
| "float_lt PosInf c = False"
| "float_lt NegInf c = True"
| "float_lt NaN c = False"

subsection \<open>Python primitives used by the engine\<close>

text \<open>\<^verbatim>\<open>d.get(key, default)\<close> on a dictionary.\<close>

definition dict_get :: "('k \<times> 'v) list \<Rightarrow> 'k \<Rightarrow> 'v \<Rightarrow> 'v" where
  "dict_get d k dflt = (case map_of d k of None \<Rightarrow> dflt | Some v \<Rightarrow> v)"

text \<open>\<^verbatim>\<open>list(d.values())[0]\<close>: indexing the empty list raises \<^verbatim>\<open>IndexError\<close>.\<close>

definition first_value :: "('k \<times> 'v) list \<Rightarrow> error + 'v" where
  "first_value d = (case map snd d of [] \<Rightarrow> Inl IndexError | v # _ \<Rightarrow> Inr v)"

text \<open>\<^verbatim>\<open>min(xs)\<close> on a list of integers; the empty list raises \<^verbatim>\<open>ValueError\<close>.\<close>

fun py_min :: "int list \<Rightarrow> error + int" where
  "py_min [] = Inl ValueError"
| "py_min (x # xs) = Inr (fold min xs x)"

text \<open>\<^verbatim>\<open>str(n)\<close> on an integer: decimal digits, with a minus sign when negative.\<close>

definition digit_char :: "nat \<Rightarrow> char" where
  "digit_char d = ''0123456789'' ! d"

fun str_nat :: "nat \<Rightarrow> string" where
  "str_nat n = (if n < 10 then [digit_char n] else str_nat (n div 10) @ [digit_char (n mod 10)])"

declare str_nat.simps [simp del]

definition str_int :: "int \<Rightarrow> string" where
  "str_int i = (if i < 0 then CHR ''-'' # str_nat (nat (- i)) else str_nat (nat i))"

text \<open>\<^verbatim>\<open>sub in s\<close> on strings: \<open>sub\<close> occurs in \<open>s\<close> as a contiguous block.\<close>

fun str_contains :: "string \<Rightarrow> string \<Rightarrow> bool" where
  "str_contains sub [] = (sub = [])"
| "str_contains sub (c # cs) = (prefix sub (c # cs) \<or> str_contains sub cs)"

text \<open>
  \<^verbatim>\<open>reference_premium - band\<close>, where \<open>band\<close> is an integer. Between integers the
  difference is exact. A float operand makes Python convert \<open>band\<close> to a float first, which
  can raise \<^verbatim>\<open>OverflowError\<close>. A string or \<^verbatim>\<open>None\<close> operand raises \<^verbatim>\<open>TypeError\<close>.
\<close>

fun py_sub :: "pyval \<Rightarrow> int \<Rightarrow> error + pyval" where
  "py_sub (PyInt r) b = Inr (PyInt (r - b))"
| "py_sub (PyFloat x) b =
     (case float_of_int b of
        Inl e \<Rightarrow> Inl e
      | Inr y \<Rightarrow> Inr (PyFloat (float_sub x y)))"
| "py_sub (PyStr s) b = Inl TypeError"
| "py_sub PyNone b = Inl TypeError"

text \<open>\<^verbatim>\<open>abs(x)\<close>.\<close>

fun py_abs :: "pyval \<Rightarrow> error + pyval" where
  "py_abs (PyInt d) = Inr (PyInt \<bar>d\<bar>)"
| "py_abs (PyFloat x) = Inr (PyFloat (float_abs x))"
| "py_abs (PyStr s) = Inl TypeError"
| "py_abs PyNone = Inl TypeError"

text \<open>
  \<^verbatim>\<open>x / band\<close>, the true division. Between integers a zero divisor raises
  \<^verbatim>\<open>ZeroDivisionError\<close>; otherwise the result is the double nearest to the exact quotient,
  and \<^verbatim>\<open>OverflowError\<close> when that is out of range. With a float numerator Python converts
  \<open>band\<close> to a float (\<^verbatim>\<open>OverflowError\<close> when out of range), raises \<^verbatim>\<open>ZeroDivisionError\<close> on
  a zero divisor, and divides as floats.
\<close>

fun py_truediv :: "pyval \<Rightarrow> int \<Rightarrow> error + pyfloat" where
  "py_truediv (PyInt a) b =
     (if b = 0 then Inl ZeroDivisionError
      else (let r = round_double (of_int a / of_int b)
            in if 2 ^ 1024 \<le> \<bar>r\<bar> then Inl OverflowError else Inr (Finite r)))"
| "py_truediv (PyFloat x) b =
     (case float_of_int b of
        Inl e \<Rightarrow> Inl e
      | Inr y \<Rightarrow> (if y = 0 then Inl ZeroDivisionError else Inr (float_div x y)))"
| "py_truediv (PyStr s) b = Inl TypeError"
| "py_truediv PyNone b = Inl TypeError"

text \<open>
  \<^verbatim>\<open>sorted(xs, key=k, reverse=True)\<close>: a stable sort into descending order of the key. The
  insertion puts an element in front of the first entry whose key is not larger, so an
  element stays ahead of the equal-keyed elements that followed it in the input.
\<close>

fun insort_reverse :: "('a \<Rightarrow> int) \<Rightarrow> 'a \<Rightarrow> 'a list \<Rightarrow> 'a list" where
  "insort_reverse k x [] = [x]"
| "insort_reverse k x (y # ys) =
     (if k y \<le> k x then x # y # ys else y # insort_reverse k x ys)"

fun sorted_reverse :: "('a \<Rightarrow> int) \<Rightarrow> 'a list \<Rightarrow> 'a list" where
  "sorted_reverse k [] = []"
| "sorted_reverse k (x # xs) = insort_reverse k x (sorted_reverse k xs)"

subsection \<open>The quote engine\<close>

text \<open>
  Step 1 of \<^verbatim>\<open>get_quote\<close>: the loop that fills \<^verbatim>\<open>eligible_policies\<close>, with the chained
  comparison \<^verbatim>\<open>min_age <= profile.age <= max_age\<close>.
\<close>

fun eligible_policies :: "Policy list \<Rightarrow> UserProfile \<Rightarrow> Policy list" where
  "eligible_policies [] profile = []"
| "eligible_policies (p # ps) profile =
     (let min_age = dict_get (eligibility p) ''min_age'' 0;
          max_age = dict_get (eligibility p) ''max_age'' 100
      in if min_age \<le> age profile \<and> age profile \<le> max_age
         then p # eligible_policies ps profile
         else eligible_policies ps profile)"

text \<open>The first statement group of the \<^verbatim>\<open>try\<close> block: the reference premium.\<close>

definition reference_premium :: "Policy \<Rightarrow> error + pyval" where
  "reference_premium p =
     (if sum_insured p = [] \<or> sum_insured p = [0]
      then first_value (premium_yearly p)
      else (case py_min (sum_insured p) of
              Inl e \<Rightarrow> Inl e
            | Inr m \<Rightarrow> Inr (dict_get (premium_yearly p) (str_int m) PyInf)))"

text \<open>\<^verbatim>\<open>abs(reference_premium - band) / band\<close>, evaluated inside out.\<close>

definition premium_diff_percent :: "pyval \<Rightarrow> int \<Rightarrow> error + pyfloat" where
  "premium_diff_percent ref band =
     (case py_sub ref band of
        Inl e \<Rightarrow> Inl e
      | Inr d \<Rightarrow> (case py_abs d of
                    Inl e \<Rightarrow> Inl e
                  | Inr a \<Rightarrow> py_truediv a band))"

text \<open>The conditions of the two risk-tolerance statements.\<close>

definition low_risk_match :: "UserProfile \<Rightarrow> Policy \<Rightarrow> bool" where
  "low_risk_match profile p \<longleftrightarrow>
     risk_tolerance profile = ''Low'' \<and> type p \<in> set [''life'', ''health'']"

definition high_risk_match :: "UserProfile \<Rightarrow> Policy \<Rightarrow> bool" where
  "high_risk_match profile p \<longleftrightarrow>
     risk_tolerance profile = ''High'' \<and> str_contains ''ULIP'' (name p)"

text \<open>
  The body of the \<^verbatim>\<open>try\<close> block for one policy: the score that is appended, or the
  exception raised before the append.
\<close>

definition score_policy :: "UserProfile \<Rightarrow> Policy \<Rightarrow> error + int" where
  "score_policy profile p =
     (case reference_premium p of
        Inl e \<Rightarrow> Inl e
      | Inr ref \<Rightarrow>
         (case premium_diff_percent ref (preferred_premium_band profile) of
            Inl e \<Rightarrow> Inl e
          | Inr diff \<Rightarrow>
             (let s0 = 0;
                  s1 = (if float_lt diff literal_0_2 then s0 + 3
                        else if float_lt diff literal_0_5 then s0 + 1 else s0);
                  s2 = (if low_risk_match profile p then s1 + 2 else s1);
                  s3 = (if high_risk_match profile p then s2 + 3 else s2)
              in Inr s3)))"

text \<open>
  Step 2: the scoring loop. The handler \<^verbatim>\<open>except (ValueError, TypeError): continue\<close>
  drops the policy; any other exception leaves the loop and the function.
\<close>

fun score_policies :: "UserProfile \<Rightarrow> Policy list \<Rightarrow> error + scored_policy list" where
  "score_policies profile [] = Inr []"
| "score_policies profile (p # ps) =
     (case score_policy profile p of
        Inl e \<Rightarrow>
          (if e = ValueError \<or> e = TypeError then score_policies profile ps else Inl e)
      | Inr s \<Rightarrow>
          (case score_policies profile ps of
             Inl e \<Rightarrow> Inl e
           | Inr rest \<Rightarrow> Inr (\<lparr>policy = p, score = s\<rparr> # rest)))"

text \<open>
  \<^verbatim>\<open>get_quote\<close>, with the module-level \<^verbatim>\<open>policies_data\<close> as an argument: filter, score,
  sort, and return the policies of the first three entries.
\<close>

definition get_quote :: "Policy list \<Rightarrow> UserProfile \<Rightarrow> error + Policy list" where
  "get_quote policies_data profile =
     (case score_policies profile (eligible_policies policies_data profile) of
        Inl e \<Rightarrow> Inl e
      | Inr scored_policies \<Rightarrow>
          (let sorted_policies = sorted_reverse score scored_policies;
               top_3_policies = map policy (take 3 sorted_policies)
           in Inr top_3_policies))"

subsection \<open>The handler as a program on variables\<close>

text \<open>
  The same function statement by statement, on the variables it reads and writes: the
  module-level list \<^verbatim>\<open>policies_data\<close> and the local lists \<^verbatim>\<open>eligible_policies\<close> and
  \<^verbatim>\<open>scored_policies\<close>, which the two loops extend by \<^verbatim>\<open>append\<close>. The locals are part of the
  state and are left as they are when the function ends, so that a later call starts
  on whatever an earlier one has left behind.
\<close>

record variables =
  var_policies_data :: "Policy list"
  var_eligible_policies :: "Policy list"
  var_scored_policies :: "scored_policy list"

text \<open>
  \<^verbatim>\<open>for policy in ...: if min_age <= profile.age <= max_age: eligible_policies.append(policy)\<close>
\<close>

fun eligibility_loop :: "Policy list \<Rightarrow> UserProfile \<Rightarrow> variables \<Rightarrow> variables" where
  "eligibility_loop [] profile vs = vs"
| "eligibility_loop (p # ps) profile vs =
     (let min_age = dict_get (eligibility p) ''min_age'' 0;
          max_age = dict_get (eligibility p) ''max_age'' 100
      in if min_age \<le> age profile \<and> age profile \<le> max_age
         then eligibility_loop ps profile
                (vs\<lparr>var_eligible_policies := var_eligible_policies vs @ [p]\<rparr>)
         else eligibility_loop ps profile vs)"

text \<open>
  The scoring loop: \<^verbatim>\<open>scored_policies.append({"policy": policy, "score": score})\<close> at the end
  of the \<^verbatim>\<open>try\<close> block, \<^verbatim>\<open>continue\<close> in the handler. An exception that is not handled ends
  the loop with the variables as they are at that moment.
\<close>

fun scoring_loop :: "Policy list \<Rightarrow> UserProfile \<Rightarrow> variables \<Rightarrow> (error \<times> variables) + variables" where
  "scoring_loop [] profile vs = Inr vs"
| "scoring_loop (p # ps) profile vs =
     (case score_policy profile p of
        Inl e \<Rightarrow>
          (if e = ValueError \<or> e = TypeError then scoring_loop ps profile vs
           else Inl (e, vs))
      | Inr s \<Rightarrow>
          scoring_loop ps profile
            (vs\<lparr>var_scored_policies := var_scored_policies vs @ [\<lparr>policy = p, score = s\<rparr>]\<rparr>))"

text \<open>The body of \<^verbatim>\<open>get_quote\<close>: the response or the exception, and the variables after it.\<close>

definition run_get_quote :: "variables \<Rightarrow> UserProfile \<Rightarrow> (error + Policy list) \<times> variables" where
  "run_get_quote vs profile =
     (let vs1 = vs\<lparr>var_eligible_policies := []\<rparr>;
          vs2 = eligibility_loop (var_policies_data vs1) profile vs1;
          vs3 = vs2\<lparr>var_scored_policies := []\<rparr>
      in case scoring_loop (var_eligible_policies vs3) profile vs3 of
           Inl (e, vs4) \<Rightarrow> (Inl e, vs4)
         | Inr vs4 \<Rightarrow>
             (Inr (map policy (take 3 (sorted_reverse score (var_scored_policies vs4)))), vs4))"

subsection \<open>Request validation\<close>

text \<open>
  The body of a request is a JSON object. FastAPI builds the \<^verbatim>\<open>UserProfile\<close> from it before
  \<^verbatim>\<open>get_quote\<close> runs, field by field as \<^verbatim>\<open>class UserProfile\<close> declares them: \<^verbatim>\<open>Field(...)\<close>
  marks a required field, \<^verbatim>\<open>Field(None)\<close> an optional one, and no field declares a bound on
  its value. How a JSON value is read as an \<^verbatim>\<open>int\<close>, a \<^verbatim>\<open>str\<close> or a list of \<^verbatim>\<open>str\<close> is the
  business of the validation library; it is a parameter here.
\<close>

datatype json =
  JInt int | JNumber rat | JString string | JBool bool | JNull | JArray "json list"
  | JObject "(string \<times> json) list"










subsection \<open>The scenarios of the specification\<close>

definition scenario_A_policy :: Policy where
  "scenario_A_policy =
     \<lparr>policy_id = ''P1'', name = ''Health Basic'', type = ''health'', description = [],
      sum_insured = [500000], premium_yearly = [(''500000'', PyInt 5000)],
      eligibility = [(''min_age'', 18), (''max_age'', 65)],
      exclusions = [], riders = []\<rparr>"

definition scenario_A_profile :: UserProfile where
  "scenario_A_profile =
     \<lparr>age = 30, dependents_count = 0, annual_income_band = 0, risk_tolerance = ''Low'',
      preferred_premium_band = 5000, vehicle_type = None, health_flags = None\<rparr>"

definition scenario_C_policy :: Policy where
  "scenario_C_policy =
     \<lparr>policy_id = ''P2'', name = ''Motor Flat'', type = ''motor'', description = [],
      sum_insured = [0], premium_yearly = [(''flat'', PyInt 12000)],
      eligibility = [], exclusions = [], riders = []\<rparr>"

text \<open>A policy that is priced by the first-value path and has no premium at all.\<close>

definition no_premium_policy :: Policy where
  "no_premium_policy =
     \<lparr>policy_id = ''P3'', name = ''Motor Draft'', type = ''motor'', description = [],
      sum_insured = [], premium_yearly = [],
      eligibility = [], exclusions = [], riders = []\<rparr>"

text \<open>A policy whose premium is a string, not a number.\<close>

definition text_premium_policy :: Policy where
  "text_premium_policy =
     \<lparr>policy_id = ''P4'', name = ''Motor Quote'', type = ''motor'', description = [],
      sum_insured = [], premium_yearly = [(''flat'', PyStr ''on request'')],
      eligibility = [], exclusions = [], riders = []\<rparr>"

text \<open>Two further catalog entries, and the profiles of the boundary cases.\<close>

definition ulip_policy :: Policy where
  "ulip_policy =
     \<lparr>policy_id = ''P5'', name = ''Wealth ULIP Plan'', type = ''investment'', description = [],
      sum_insured = [1000000, 250000], premium_yearly = [(''250000'', PyInt 6000), (''1000000'', PyInt 20000)],
      eligibility = [(''min_age'', 21)], exclusions = [], riders = []\<rparr>"

definition travel_policy :: Policy where
  "travel_policy =
     \<lparr>policy_id = ''P6'', name = ''Travel Single Trip'', type = ''travel'', description = [],
      sum_insured = [], premium_yearly = [(''single'', PyInt 300)],
      eligibility = [(''max_age'', 70)], exclusions = [], riders = []\<rparr>"

definition zero_band_profile :: UserProfile where
  "zero_band_profile = scenario_A_profile\<lparr>preferred_premium_band := 0\<rparr>"

definition negative_band_profile :: UserProfile where
  "negative_band_profile = scenario_A_profile\<lparr>preferred_premium_band := - 1\<rparr>"

definition high_risk_profile :: UserProfile where
  "high_risk_profile = scenario_A_profile\<lparr>risk_tolerance := ''High''\<rparr>"

text \<open>Scenario B: the profile of Scenario A at the age of 10.\<close>

definition scenario_B_profile :: UserProfile where
  "scenario_B_profile = scenario_A_profile\<lparr>age := 10\<rparr>"

text \<open>
  A premium and a band of eighteen digits: the exact quotient \<open>|r - band| / band\<close> is
  below one fifth by \<open>2 / 10 ^ 18\<close>, less than the spacing of the doubles there.
\<close>

definition rounding_policy :: Policy where
  "rounding_policy =
     \<lparr>policy_id = ''P7'', name = ''Fleet Cover'', type = ''motor'', description = [],
      sum_insured = [], premium_yearly = [(''flat'', PyInt 599999999999999999)],
      eligibility = [], exclusions = [], riders = []\<rparr>"

definition rounding_profile :: UserProfile where
  "rounding_profile = scenario_A_profile\<lparr>preferred_premium_band := 500000000000000000\<rparr>"

text \<open>A premium beyond the range of a double, and a band of 1.\<close>

definition overflow_policy :: Policy where
  "overflow_policy =
     \<lparr>policy_id = ''P8'', name = ''Fleet Cover Max'', type = ''motor'', description = [],
      sum_insured = [], premium_yearly = [(''flat'', PyInt (10 ^ 309))],
      eligibility = [], exclusions = [], riders = []\<rparr>"

definition unit_band_profile :: UserProfile where
  "unit_band_profile = scenario_A_profile\<lparr>preferred_premium_band := 1\<rparr>"

text \<open>A premium that is the float NaN, and one with a fraction.\<close>

definition nan_premium_policy :: Policy where
  "nan_premium_policy =
     \<lparr>policy_id = ''P9'', name = ''Motor Pending'', type = ''motor'', description = [],
      sum_insured = [], premium_yearly = [(''flat'', PyFloat NaN)],
      eligibility = [], exclusions = [], riders = []\<rparr>"

definition decimal_premium_policy :: Policy where
  "decimal_premium_policy =
     \<lparr>policy_id = ''P10'', name = ''Motor Plus'', type = ''motor'', description = [],
      sum_insured = [], premium_yearly = [(''flat'', PyFloat (Finite (10001 / 2)))],
      eligibility = [], exclusions = [], riders = []\<rparr>"

text \<open>A policy whose premium table lacks the key of its smallest sum insured.\<close>

definition missing_tier_policy :: Policy where
  "missing_tier_policy =
     \<lparr>policy_id = ''P11'', name = ''Term Life'', type = ''life'', description = [],
      sum_insured = [100000, 200000], premium_yearly = [(''200000'', PyInt 7000)],
      eligibility = [], exclusions = [], riders = []\<rparr>"


subsection \<open>The eligibility rule in the words of the specification\<close>

text \<open>
  \<open>min_age \<le> profile.age \<le> max_age\<close>, where a bound that is absent from the
  eligibility mapping is 0 and 100 respectively.
\<close>

definition in_age_bounds :: "UserProfile \<Rightarrow> Policy \<Rightarrow> bool" where
  "in_age_bounds profile p \<longleftrightarrow>
     (case map_of (eligibility p) ''min_age'' of None \<Rightarrow> 0 | Some a \<Rightarrow> a) \<le> age profile \<and>
     age profile \<le> (case map_of (eligibility p) ''max_age'' of None \<Rightarrow> 100 | Some a \<Rightarrow> a)"

subsection \<open>Reading a decimal string\<close>

text \<open>
  The value of a string of decimal digits, most significant digit first. It is not part of
  the service; it serves to check that \<open>str_nat\<close> writes the decimal notation.
\<close>

definition digit_val :: "char \<Rightarrow> nat" where
  "digit_val c = of_char c - 48"

definition nat_of_str :: "string \<Rightarrow> nat" where
  "nat_of_str s = foldl (\<lambda>a c. 10 * a + digit_val c) 0 s"

section \<open>Properties of the rounding to a double\<close>

text \<open>Rounding to an integer does not cross an integer.\<close>

lemma round_half_even_le: "y < of_int M + 1/2 \<Longrightarrow> round_half_even y \<le> M"
  unfolding round_half_even_def Let_def
  by (auto split: if_splits) linarith+

lemma round_half_even_ge: "of_int M - 1/2 < y \<Longrightarrow> M \<le> round_half_even y"
  unfolding round_half_even_def Let_def
  by (auto split: if_splits) linarith+

lemma round_half_even_nonneg: "0 \<le> y \<Longrightarrow> 0 \<le> round_half_even y"
  using round_half_even_ge [of 0 y] by simp

lemma of_int_pow2: "0 \<le> k \<Longrightarrow> (of_int (2 ^ nat k) :: rat) = 2 powi k"
  by (simp add: power_int_def)

lemma ilog2_bounds:
  assumes "0 < q"
  shows "2 powi (ilog2 q) \<le> q" and "q < 2 powi (ilog2 q + 1)"
proof -
  obtain a b where ab: "quotient_of q = (a, b)"
    by (cases "quotient_of q")
  then have b: "0 < b" and q: "q = of_int a / of_int b"
    by (simp_all add: quotient_of_denom_pos quotient_of_div)
  from assms q b have a: "0 < a"
    by (simp add: zero_less_divide_iff)
  let ?la = "bitlen a" and ?lb = "bitlen b"
  from bitlen_bounds [OF a] have a1: "2 ^ nat (?la - 1) \<le> a" and a2: "a < 2 ^ nat ?la"
    by simp_all
  from bitlen_bounds [OF b] have b1: "2 ^ nat (?lb - 1) \<le> b" and b2: "b < 2 ^ nat ?lb"
    by simp_all
  have la: "1 \<le> ?la" using a by (simp add: bitlen_alt_def)
  have lb: "1 \<le> ?lb" using b by (simp add: bitlen_alt_def)
  have ra1: "(2::rat) powi (?la - 1) \<le> of_int a"
    using a1 la of_int_pow2 [of "?la - 1"] by (metis diff_ge_0_iff_ge of_int_le_iff)
  have ra2: "of_int a < (2::rat) powi ?la"
    using a2 la of_int_pow2 [of ?la] by (metis bitlen_nonneg of_int_less_iff)
  have rb1: "(2::rat) powi (?lb - 1) \<le> of_int b"
    using b1 lb of_int_pow2 [of "?lb - 1"] by (metis diff_ge_0_iff_ge of_int_le_iff)
  have rb2: "of_int b < (2::rat) powi ?lb"
    using b2 lb of_int_pow2 [of ?lb] by (metis bitlen_nonneg of_int_less_iff)
  let ?d = "?la - ?lb"
  have bpos: "(0::rat) < of_int b" using b by simp
  have low: "(2::rat) powi (?d - 1) \<le> q"
  proof -
    have "(2::rat) powi (?d - 1) * of_int b \<le> 2 powi (?d - 1) * 2 powi ?lb"
      using rb2 by (intro mult_left_mono) simp_all
    also have "\<dots> = 2 powi (?la - 1)"
      by (simp flip: power_int_add)
    also have "\<dots> \<le> of_int a" by (rule ra1)
    finally show ?thesis
      using bpos by (simp add: q pos_le_divide_eq)
  qed
  have up: "q < (2::rat) powi (?d + 1)"
  proof -
    have "of_int a < (2::rat) powi ?la" by (rule ra2)
    also have "\<dots> = 2 powi (?d + 1) * 2 powi (?lb - 1)"
      by (simp flip: power_int_add)
    also have "\<dots> \<le> 2 powi (?d + 1) * of_int b"
      using rb1 by (intro mult_left_mono) simp_all
    finally show ?thesis
      using bpos by (simp add: q pos_divide_less_eq)
  qed
  have il: "ilog2 q = (if 2 powi ?d \<le> q then ?d else ?d - 1)"
    by (simp add: ilog2_def ab Let_def)
  show "2 powi (ilog2 q) \<le> q"
    using low by (simp add: il)
  show "q < 2 powi (ilog2 q + 1)"
    using up by (auto simp: il not_le)
qed

lemma pow2_less_imp: "(2::rat) powi m < 2 powi n \<Longrightarrow> m < n"
proof (rule ccontr)
  assume l: "(2::rat) powi m < 2 powi n" and "\<not> m < n"
  then have "n \<le> m" by simp
  then have "(2::rat) powi n \<le> 2 powi m"
    by (intro power_int_increasing) simp_all
  with l show False by simp
qed

lemma ilog2_le: "0 < q \<Longrightarrow> q < 2 powi (E + 1) \<Longrightarrow> ilog2 q \<le> E"
proof -
  assume q: "0 < q" and u: "q < 2 powi (E + 1)"
  from ilog2_bounds(1) [OF q] u have "(2::rat) powi (ilog2 q) < 2 powi (E + 1)"
    by simp
  then have "ilog2 q < E + 1" by (rule pow2_less_imp)
  then show ?thesis by simp
qed

lemma ilog2_ge: "0 < q \<Longrightarrow> 2 powi E \<le> q \<Longrightarrow> E \<le> ilog2 q"
proof -
  assume q: "0 < q" and l: "2 powi E \<le> q"
  from ilog2_bounds(2) [OF q] l have "(2::rat) powi E < 2 powi (ilog2 q + 1)"
    by simp
  then have "E < ilog2 q + 1" by (rule pow2_less_imp)
  then show ?thesis by simp
qed

text \<open>
  Rounding to a double does not cross a double: a value at most the double \<open>M * 2 powi (E - 52)\<close>
  is rounded to at most that double, and a value at least that double to at least it.
\<close>

lemma pow2_split52: "(2::rat) powi E = 2 ^ 52 * 2 powi (E - 52)"
proof -
  have "E = 52 + (E - 52)" by simp
  then have "(2::rat) powi E = 2 powi (52 + (E - 52))" by (rule arg_cong)
  also have "\<dots> = 2 powi 52 * 2 powi (E - 52)"
    by (rule power_int_add) simp
  finally show ?thesis by simp
qed

lemma pow2_split53: "(2::rat) powi (E + 1) = 2 ^ 53 * 2 powi (E - 52)"
proof -
  have "E + 1 = 53 + (E - 52)" by simp
  then have "(2::rat) powi (E + 1) = 2 powi (53 + (E - 52))" by (rule arg_cong)
  also have "\<dots> = 2 powi 53 * 2 powi (E - 52)"
    by (rule power_int_add) simp
  finally show ?thesis by simp
qed

lemma round_double_pos:
  assumes "0 < x"
  shows "round_double x =
     of_int (round_half_even (x / 2 powi (max (ilog2 x) (- 1022) - 52)))
       * 2 powi (max (ilog2 x) (- 1022) - 52)"
  using assms by (simp add: round_double_def Let_def)

lemma round_double_upper:
  assumes x: "0 < x" and E: "- 1022 \<le> E" and lt: "x < 2 powi (E + 1)"
    and m: "x / 2 powi (E - 52) < of_int M + 1/2" and M: "2 ^ 52 \<le> M"
  shows "round_double x \<le> of_int M * 2 powi (E - 52)"
proof -
  let ?e = "max (ilog2 x) (- 1022)"
  let ?u = "(2::rat) powi (?e - 52)"
  have u: "0 < ?u" by simp
  have eE: "?e \<le> E"
    using ilog2_le [OF x lt] E by simp
  have xe: "x < 2 powi (?e + 1)"
  proof -
    have "x < 2 powi (ilog2 x + 1)" by (rule ilog2_bounds(2) [OF x])
    also have "\<dots> \<le> 2 powi (?e + 1)"
      by (intro power_int_increasing) simp_all
    finally show ?thesis .
  qed
  show ?thesis
  proof (cases "?e = E")
    case True
    with m have "round_half_even (x / ?u) \<le> M"
      by (simp add: round_half_even_le)
    then have "(of_int (round_half_even (x / ?u)) :: rat) \<le> of_int M"
      by simp
    then have "of_int (round_half_even (x / ?u)) * ?u \<le> of_int M * ?u"
      using u by (intro mult_right_mono) simp_all
    with True show ?thesis
      by (simp add: round_double_pos [OF x])
  next
    case False
    have less: "?e + 1 \<le> E" using eE False by linarith
    have "x / ?u < 2 ^ 53"
      using xe u by (simp add: pos_divide_less_eq pow2_split53 [of ?e])
    also have "(2 ^ 53 :: rat) < of_int (2 ^ 53) + 1/2"
      by simp
    finally have "x / ?u < of_int (2 ^ 53) + 1/2" .
    then have "round_half_even (x / ?u) \<le> 2 ^ 53"
      by (rule round_half_even_le)
    then have "(of_int (round_half_even (x / ?u)) :: rat) \<le> 2 ^ 53"
      by (metis of_int_le_iff of_int_numeral of_int_power)
    then have "of_int (round_half_even (x / ?u)) * ?u \<le> 2 ^ 53 * ?u"
      using u by (intro mult_right_mono) simp_all
    also have "\<dots> = 2 powi (?e + 1)"
      by (simp add: pow2_split53 [of ?e])
    also have "\<dots> \<le> 2 powi E"
      using less by (intro power_int_increasing) simp_all
    also have "\<dots> = 2 ^ 52 * 2 powi (E - 52)"
      by (rule pow2_split52)
    also have "\<dots> \<le> of_int M * 2 powi (E - 52)"
    proof -
      have "(2 ^ 52 :: rat) \<le> of_int M"
        using M by (metis of_int_le_iff of_int_numeral of_int_power)
      then show ?thesis
        by (intro mult_right_mono) simp_all
    qed
    finally show ?thesis
      by (simp add: round_double_pos [OF x])
  qed
qed

lemma round_double_lower:
  assumes E: "- 1022 \<le> E" and ge: "2 powi E \<le> x"
    and m: "of_int M - 1/2 < x / 2 powi (E - 52)" and M: "M \<le> 2 ^ 53"
  shows "of_int M * 2 powi (E - 52) \<le> round_double x"
proof -
  have "(0::rat) < 2 powi E" by simp
  then have x: "0 < x" using ge by (rule less_le_trans)
  let ?e = "max (ilog2 x) (- 1022)"
  let ?u = "(2::rat) powi (?e - 52)"
  have u: "0 < ?u" by simp
  have il: "E \<le> ilog2 x"
    using x ge by (rule ilog2_ge)
  with E have e: "?e = ilog2 x" by simp
  have eE: "E \<le> ?e" using il e by simp
  have xe: "2 powi ?e \<le> x"
    using ilog2_bounds(1) [OF x] e by simp
  show ?thesis
  proof (cases "?e = E")
    case True
    with m have "M \<le> round_half_even (x / ?u)"
      by (simp add: round_half_even_ge)
    then have "(of_int M :: rat) \<le> of_int (round_half_even (x / ?u))"
      by simp
    then have "of_int M * ?u \<le> of_int (round_half_even (x / ?u)) * ?u"
      using u by (intro mult_right_mono) simp_all
    with True show ?thesis
      by (simp add: round_double_pos [OF x])
  next
    case False
    have less: "E + 1 \<le> ?e" using eE False by linarith
    have "(of_int M :: rat) \<le> 2 ^ 53"
      using M by (metis of_int_le_iff of_int_numeral of_int_power)
    then have "of_int M * (2::rat) powi (E - 52) \<le> 2 ^ 53 * 2 powi (E - 52)"
      by (intro mult_right_mono) simp_all
    also have "\<dots> = 2 powi (E + 1)"
      by (simp add: pow2_split53)
    also have "\<dots> \<le> 2 powi ?e"
      using less by (intro power_int_increasing) simp_all
    also have "\<dots> = 2 ^ 52 * ?u"
      by (rule pow2_split52)
    also have "\<dots> \<le> of_int (round_half_even (x / ?u)) * ?u"
    proof -
      have "2 ^ 52 \<le> x / ?u"
        using xe u by (simp add: pos_le_divide_eq pow2_split52 [of ?e])
      moreover have "of_int (2 ^ 52) - 1/2 < (2 ^ 52 :: rat)"
        by simp
      ultimately have "of_int (2 ^ 52) - 1/2 < x / ?u"
        by (rule less_le_trans [rotated])
      then have "2 ^ 52 \<le> round_half_even (x / ?u)"
        by (rule round_half_even_ge)
      then have "(2 ^ 52 :: rat) \<le> of_int (round_half_even (x / ?u))"
        by (metis of_int_le_iff of_int_numeral of_int_power)
      then show ?thesis
        using u by (intro mult_right_mono) simp_all
    qed
    finally show ?thesis
      by (simp add: round_double_pos [OF x])
  qed
qed

lemma round_double_nonneg: "0 \<le> x \<Longrightarrow> 0 \<le> round_double x"
  by (cases "x = 0") (simp_all add: round_double_def Let_def round_half_even_nonneg)

lemma round_double_minus: "round_double (- x) = - round_double x"
  by (simp add: round_double_def Let_def sgn_minus)

lemma round_double_nonpos: "x \<le> 0 \<Longrightarrow> round_double x \<le> 0"
  using round_double_nonneg [of "- x"] by (simp add: round_double_minus)

lemma round_double_abs: "\<bar>round_double x\<bar> = round_double \<bar>x\<bar>"
proof (cases "0 \<le> x")
  case True
  then show ?thesis
    using round_double_nonneg [of x] by simp
next
  case False
  then have "x \<le> 0" by simp
  then have "round_double x \<le> 0" by (rule round_double_nonpos)
  with False show ?thesis
    by (simp add: round_double_minus)
qed

text \<open>The two literals, and on which side of them a rounded quotient of integers falls.\<close>

lemma literal_0_2_eq: "literal_0_2 = 7205759403792794 / 2 ^ 55"
  unfolding literal_0_2_def
proof (rule antisym)
  have "round_double (2/10) \<le> of_int 7205759403792794 * 2 powi (- 3 - 52)"
    by (rule round_double_upper) simp_all
  then show "round_double (2/10) \<le> 7205759403792794 / 2 ^ 55"
    by (simp add: power_int_minus field_simps)
next
  have "of_int 7205759403792794 * 2 powi (- 3 - 52) \<le> round_double (2/10)"
    by (rule round_double_lower) simp_all
  then show "7205759403792794 / 2 ^ 55 \<le> round_double (2/10)"
    by (simp add: power_int_minus field_simps)
qed

lemma literal_0_5_eq: "literal_0_5 = 1/2"
  unfolding literal_0_5_def
proof (rule antisym)
  have "round_double (5/10) \<le> of_int (2 ^ 52) * 2 powi (- 1 - 52)"
    by (rule round_double_upper) simp_all
  then show "round_double (5/10) \<le> 1/2"
    by (simp add: power_int_minus field_simps)
next
  have "of_int (2 ^ 52) * 2 powi (- 1 - 52) \<le> round_double (5/10)"
    by (rule round_double_lower) simp_all
  then show "1/2 \<le> round_double (5/10)"
    by (simp add: power_int_minus field_simps)
qed

lemma round_ge_fifth:
  assumes "1/5 \<le> x"
  shows "literal_0_2 \<le> round_double x"
proof -
  have "of_int 7205759403792794 * 2 powi (- 3 - 52) \<le> round_double x"
  proof (rule round_double_lower)
    show "2 powi (- 3) \<le> x" using assms by simp
    show "of_int 7205759403792794 - 1/2 < x / 2 powi (- 3 - 52)"
      using assms by (simp add: power_int_minus field_simps)
  qed simp_all
  then show ?thesis
    by (simp add: literal_0_2_eq power_int_minus field_simps)
qed

lemma round_ge_half:
  assumes "1/2 \<le> x"
  shows "literal_0_5 \<le> round_double x"
proof -
  have "of_int (2 ^ 52) * 2 powi (- 1 - 52) \<le> round_double x"
  proof (rule round_double_lower)
    show "2 powi (- 1) \<le> x" using assms by simp
    show "of_int (2 ^ 52) - 1/2 < x / 2 powi (- 1 - 52)"
      using assms by (simp add: power_int_minus field_simps)
  qed simp_all
  then show ?thesis
    by (simp add: literal_0_5_eq power_int_minus field_simps)
qed

lemma round_lt_fifth:
  fixes a b :: int
  assumes a: "0 \<le> a" and b: "0 < b" "b \<le> 2 ^ 53" and lt: "of_int a / of_int b < (1/5 :: rat)"
  shows "round_double (of_int a / of_int b) < literal_0_2"
proof (cases "a = 0")
  case True
  then show ?thesis by (simp add: literal_0_2_eq round_double_def)
next
  case False
  let ?x = "of_int a / of_int b :: rat"
  have bp: "(0::rat) < of_int b" using b by simp
  from False a b have x: "0 < ?x" by simp
  from lt bp have "(of_int (5 * a) :: rat) < of_int b"
    by (simp add: field_simps)
  then have i: "5 * a < b" by (simp only: of_int_less_iff)
  have "a * 2 ^ 56 < 14411518807585587 * b"
    using i b by simp
  then have "(of_int (a * 2 ^ 56) :: rat) < of_int (14411518807585587 * b)"
    by (simp only: of_int_less_iff)
  then have m: "?x / 2 powi (- 3 - 52) < of_int 7205759403792793 + 1/2"
    using bp by (simp add: power_int_minus field_simps)
  have "round_double ?x \<le> of_int 7205759403792793 * 2 powi (- 3 - 52)"
  proof (rule round_double_upper [OF x _ _ m])
    show "?x < 2 powi (- 3 + 1)" using lt by simp
  qed simp_all
  then show ?thesis
    by (simp add: literal_0_2_eq power_int_minus field_simps)
qed

lemma round_lt_half:
  fixes a b :: int
  assumes a: "0 \<le> a" and b: "0 < b" "b \<le> 2 ^ 53" and lt: "of_int a / of_int b < (1/2 :: rat)"
  shows "round_double (of_int a / of_int b) < literal_0_5"
proof (cases "a = 0")
  case True
  then show ?thesis by (simp add: literal_0_5_eq round_double_def)
next
  case False
  let ?x = "of_int a / of_int b :: rat"
  have bp: "(0::rat) < of_int b" using b by simp
  from False a b have x: "0 < ?x" by simp
  from lt bp have "(of_int (2 * a) :: rat) < of_int b"
    by (simp add: field_simps)
  then have i: "2 * a < b" by (simp only: of_int_less_iff)
  have "a * 2 ^ 55 < 18014398509481983 * b"
    using i b by simp
  then have "(of_int (a * 2 ^ 55) :: rat) < of_int (18014398509481983 * b)"
    by (simp only: of_int_less_iff)
  then have m: "?x / 2 powi (- 2 - 52) < of_int 9007199254740991 + 1/2"
    using bp by (simp add: power_int_minus field_simps)
  have "round_double ?x \<le> of_int 9007199254740991 * 2 powi (- 2 - 52)"
  proof (rule round_double_upper [OF x _ _ m])
    show "?x < 2 powi (- 2 + 1)" using lt by simp
  qed simp_all
  then show ?thesis
    by (simp add: literal_0_5_eq power_int_minus field_simps)
qed

lemma round_double_bounded:
  assumes "\<bar>x\<bar> < 2 ^ 1023"
  shows "\<bar>round_double x\<bar> < 2 ^ 1024"
proof (cases "x = 0")
  case True
  then show ?thesis by (simp add: round_double_def)
next
  case False
  then have x: "0 < \<bar>x\<bar>" by simp
  have "round_double \<bar>x\<bar> \<le> of_int (2 ^ 53) * 2 powi (1022 - 52)"
  proof (rule round_double_upper [OF x])
    show "\<bar>x\<bar> < 2 powi (1022 + 1)" using assms by simp
    have "\<bar>x\<bar> / 2 powi (1022 - 52) < 2 ^ 53"
      using assms by (simp add: field_simps)
    also have "(2 ^ 53 :: rat) < of_int (2 ^ 53) + 1/2" by simp
    finally show "\<bar>x\<bar> / 2 powi (1022 - 52) < of_int (2 ^ 53) + 1/2" .
  qed simp_all
  also have "\<dots> = 2 ^ 1023" by simp
  also have "\<dots> < (2 ^ 1024 :: rat)" by simp
  finally show ?thesis
    by (simp add: round_double_abs)
qed

lemma round_double_ge_one:
  assumes "1 \<le> x"
  shows "1 \<le> round_double x"
proof -
  have "of_int (2 ^ 52) * 2 powi (0 - 52) \<le> round_double x"
  proof (rule round_double_lower)
    show "2 powi 0 \<le> x" using assms by simp
    have "of_int (2 ^ 52) - 1/2 < (2 ^ 52 :: rat)" by simp
    also have "\<dots> \<le> x / 2 powi (0 - 52)"
      using assms by (simp add: power_int_minus field_simps)
    finally show "of_int (2 ^ 52) - 1/2 < x / 2 powi (0 - 52)" .
  qed simp_all
  then show ?thesis
    by (simp add: power_int_minus)
qed

lemma round_double_of_int_eq_0: "round_double (of_int b) = 0 \<longleftrightarrow> b = 0"
proof
  assume r: "round_double (of_int b) = 0"
  show "b = 0"
  proof (rule ccontr)
    assume "b \<noteq> 0"
    then have "(1::rat) \<le> \<bar>of_int b\<bar>"
      by (metis abs_ge_zero dual_order.order_iff_strict of_int_0_eq_iff of_int_abs
          of_int_le_iff zless_imp_add1_zle zero_less_abs_iff add_0 of_int_1)
    then have "1 \<le> round_double \<bar>of_int b\<bar>" by (rule round_double_ge_one)
    with r show False by (simp flip: round_double_abs)
  qed
next
  assume "b = 0"
  then show "round_double (of_int b) = 0" by (simp add: round_double_def)
qed

lemma round_half_even_of_int: "round_half_even (of_int k) = k"
  by (simp add: round_half_even_def)

text \<open>An integer of at most 53 bits is a double.\<close>

lemma round_double_of_int_exact:
  assumes "\<bar>n\<bar> \<le> 2 ^ 53"
  shows "round_double (of_int n) = of_int n"
proof -
  have pos: "round_double (of_int m) = of_int m" if m: "0 < m" "m \<le> 2 ^ 53" for m :: int
  proof -
    let ?x = "of_int m :: rat"
    have x: "0 < ?x" using m by simp
    have "?x < 2 powi (53 + 1)"
    proof -
      have "?x \<le> of_int (2 ^ 53)" using m by (simp only: of_int_le_iff)
      also have "\<dots> < (2::rat) powi (53 + 1)" by simp
      finally show ?thesis .
    qed
    with x have up: "ilog2 ?x \<le> 53" by (rule ilog2_le)
    have "(2::rat) powi 0 \<le> ?x" using m by simp
    with x have lo: "0 \<le> ilog2 ?x" by (rule ilog2_ge)
    let ?e = "ilog2 ?x"
    from lo have e: "max ?e (- 1022) = ?e" by simp
    show ?thesis
    proof (cases "?e = 53")
      case True
      have "(2::rat) powi 53 \<le> ?x"
        using ilog2_bounds(1) [OF x] True by simp
      then have "(of_int (2 ^ 53) :: rat) \<le> of_int m" by simp
      then have "2 ^ 53 \<le> m" by (simp only: of_int_le_iff)
      with m have m53: "m = 2 ^ 53" by simp
      have "round_double ?x
          = of_int (round_half_even (?x / 2 powi (53 - 52))) * 2 powi (53 - 52)"
        using True e by (simp add: round_double_pos [OF x])
      also have "?x / 2 powi (53 - 52) = of_int (2 ^ 52)"
        by (simp add: m53)
      also have "of_int (round_half_even (of_int (2 ^ 52))) * 2 powi (53 - 52) = ?x"
        by (simp only: round_half_even_of_int) (simp add: m53)
      finally show ?thesis .
    next
      case False
      with up have k: "0 \<le> 52 - ?e" by simp
      have u: "(2::rat) powi (?e - 52) = 1 / 2 ^ nat (52 - ?e)"
      proof -
        define j where "j = nat (52 - ?e)"
        have "?e - 52 = - int j" using k by (simp add: j_def)
        then have "(2::rat) powi (?e - 52) = 2 powi (- int j)"
          by (rule arg_cong)
        also have "\<dots> = inverse (2 powi (int j))"
          by (rule power_int_minus)
        also have "\<dots> = 1 / 2 ^ j"
          by (simp add: inverse_eq_divide)
        finally show ?thesis
          by (simp only: j_def)
      qed
      have q: "?x / 2 powi (?e - 52) = of_int (m * 2 ^ nat (52 - ?e))"
        by (simp add: u)
      have "round_double ?x
          = of_int (round_half_even (?x / 2 powi (?e - 52))) * 2 powi (?e - 52)"
        using e by (simp add: round_double_pos [OF x])
      also have "\<dots> = of_int (m * 2 ^ nat (52 - ?e)) * 2 powi (?e - 52)"
        by (simp only: q round_half_even_of_int)
      also have "\<dots> = ?x"
        by (simp add: u)
      finally show ?thesis .
    qed
  qed
  show ?thesis
  proof (cases "0 < n")
    case True
    with assms show ?thesis by (intro pos) simp_all
  next
    case False
    show ?thesis
    proof (cases "n = 0")
      case True
      then show ?thesis by (simp add: round_double_def)
    next
      case nz: False
      with False assms have "0 < - n" "- n \<le> 2 ^ 53" by simp_all
      then have "round_double (of_int (- n)) = of_int (- n)" by (rule pos)
      then show ?thesis
        by (simp add: round_double_minus)
    qed
  qed
qed

lemma round_double_half: "round_double (1/2) = 1/2"
  using literal_0_5_eq by (simp add: literal_0_5_def)

text \<open>A small quotient stays small.\<close>

lemma round_double_le_eighth:
  assumes "0 \<le> x" and "x < 1/8"
  shows "0 \<le> round_double x" and "round_double x \<le> 1/8"
proof -
  show "0 \<le> round_double x" using assms(1) by (rule round_double_nonneg)
  show "round_double x \<le> 1/8"
  proof (cases "x = 0")
    case True
    then show ?thesis by (simp add: round_double_def)
  next
    case False
    with assms have x: "0 < x" by simp
    have "round_double x \<le> of_int (2 ^ 52) * 2 powi (- 3 - 52)"
    proof (rule round_double_upper [OF x])
      show "x < 2 powi (- 3 + 1)" using assms(2) by simp
      have "x / 2 powi (- 3 - 52) < 2 ^ 52"
        using assms(2) by (simp add: power_int_minus field_simps)
      also have "(2 ^ 52 :: rat) < of_int (2 ^ 52) + 1/2" by simp
      finally show "x / 2 powi (- 3 - 52) < of_int (2 ^ 52) + 1/2" .
    qed simp_all
    then show ?thesis
      by (simp add: power_int_minus field_simps)
  qed
qed

section \<open>Properties of the primitives\<close>

text \<open>The descending insertion sort is the library's stable sort on the negated key.\<close>

lemma insort_reverse_insort_key:
  "insort_reverse k x ys = insort_key (\<lambda>e. - k e) x ys"
  by (induction ys) auto

lemma sorted_reverse_sort_key:
  "sorted_reverse k xs = sort_key (\<lambda>e. - k e) xs"
  by (induction xs) (auto simp: insort_reverse_insort_key)

lemma mset_sorted_reverse: "mset (sorted_reverse k xs) = mset xs"
  by (simp add: sorted_reverse_sort_key)

lemma length_sorted_reverse: "length (sorted_reverse k xs) = length xs"
  by (simp add: sorted_reverse_sort_key)

lemma set_sorted_reverse: "set (sorted_reverse k xs) = set xs"
  by (simp add: sorted_reverse_sort_key)

lemma descending_sorted_reverse:
  "sorted_wrt (\<lambda>a b. k b \<le> k a) (sorted_reverse k xs)"
proof -
  have "sorted (map (\<lambda>e. - k e) (sorted_reverse k xs))"
    by (simp add: sorted_reverse_sort_key)
  then show ?thesis
    by (simp add: sorted_wrt_map)
qed

lemma stable_sorted_reverse:
  "filter (\<lambda>e. k e = v) (sorted_reverse k xs) = filter (\<lambda>e. k e = v) xs"
proof -
  have "filter (\<lambda>e. - k e = - v) (sort_key (\<lambda>e. - k e) xs) = filter (\<lambda>e. - k e = - v) xs"
    by (rule sort_key_stable)
  then show ?thesis
    by (simp add: sorted_reverse_sort_key)
qed

text \<open>Two equal-keyed elements keep their order: the first is still ahead of the second.\<close>

lemma pair_order_sorted_reverse:
  assumes "subseq [a, b] xs" and "k a = k b"
  shows "subseq [a, b] (sorted_reverse k xs)"
proof -
  let ?P = "\<lambda>e. k e = k a"
  have "subseq (filter ?P [a, b]) (filter ?P xs)"
    using assms(1) by (rule subseq_filter)
  then have "subseq [a, b] (filter ?P (sorted_reverse k xs))"
    using assms(2) by (simp add: stable_sorted_reverse)
  moreover have "subseq (filter ?P (sorted_reverse k xs)) (sorted_reverse k xs)"
    by simp
  ultimately show ?thesis
    by (rule subseq_order.order_trans)
qed

text \<open>The substring test is the contiguous-sublist relation of the library.\<close>

lemma str_contains_sublist: "str_contains sub s = sublist sub s"
  by (induction s) (auto simp: sublist_Cons_right)

lemma py_min_Min: "xs \<noteq> [] \<Longrightarrow> py_min xs = Inr (Min (set xs))"
proof (cases xs)
  case Nil
  assume "xs \<noteq> []" with Nil show ?thesis by simp
next
  case (Cons x ys)
  have "fold min ys x = Min (set (x # ys))"
    by (rule Min.set_eq_fold [symmetric])
  with Cons show ?thesis by simp
qed

text \<open>\<open>str_int\<close> writes decimal notation: reading the digits back gives the number, and
  different integers have different strings.\<close>

lemma digit_val_digit_char: "d < 10 \<Longrightarrow> digit_val (digit_char d) = d"
proof -
  assume "d < 10"
  then have "d \<in> {0, 1, 2, 3, 4, 5, 6, 7, 8, 9}"
    by auto
  then show ?thesis
    by (auto simp: digit_val_def digit_char_def)
qed

lemma nat_of_str_snoc: "nat_of_str (s @ [c]) = 10 * nat_of_str s + digit_val c"
  by (simp add: nat_of_str_def)

lemma nat_of_str_str_nat: "nat_of_str (str_nat n) = n"
proof (induction n rule: str_nat.induct)
  case (1 n)
  show ?case
  proof (cases "n < 10")
    case True
    then show ?thesis
      by (simp add: str_nat.simps [of n] nat_of_str_def digit_val_digit_char)
  next
    case False
    with "1" have "nat_of_str (str_nat (n div 10)) = n div 10"
      by simp
    with False show ?thesis
      by (simp add: str_nat.simps [of n] nat_of_str_snoc digit_val_digit_char)
  qed
qed

lemma str_nat_inj: "str_nat m = str_nat n \<Longrightarrow> m = n"
proof -
  assume "str_nat m = str_nat n"
  then have "nat_of_str (str_nat m) = nat_of_str (str_nat n)"
    by simp
  then show "m = n"
    by (simp only: nat_of_str_str_nat)
qed

lemma str_nat_no_minus: "CHR ''-'' \<notin> set (str_nat n)"
proof (induction n rule: str_nat.induct)
  case (1 n)
  have d: "digit_char k \<noteq> CHR ''-''" if "k < 10" for k
  proof -
    from that have "k \<in> {0, 1, 2, 3, 4, 5, 6, 7, 8, 9}" by auto
    then show ?thesis by (auto simp: digit_char_def)
  qed
  show ?case
  proof (cases "n < 10")
    case True
    then show ?thesis
      using d [of n] by (simp add: str_nat.simps [of n])
  next
    case False
    with "1" have "CHR ''-'' \<notin> set (str_nat (n div 10))" by simp
    with False show ?thesis
      using d [of "n mod 10"] by (simp add: str_nat.simps [of n])
  qed
qed

lemma str_int_inj: "str_int i = str_int j \<Longrightarrow> i = j"
proof -
  assume eq: "str_int i = str_int j"
  have hd_nonneg: "str_nat n \<noteq> CHR ''-'' # s" for n s
    using str_nat_no_minus [of n] by auto
  show ?thesis
  proof (cases "i < 0"; cases "j < 0")
    assume "i < 0" "j < 0"
    with eq have "str_nat (nat (- i)) = str_nat (nat (- j))" by (simp add: str_int_def)
    then have "nat (- i) = nat (- j)" by (rule str_nat_inj)
    with \<open>i < 0\<close> \<open>j < 0\<close> show ?thesis by simp
  next
    assume "i < 0" "\<not> j < 0"
    with eq have "CHR ''-'' # str_nat (nat (- i)) = str_nat (nat j)" by (simp add: str_int_def)
    with hd_nonneg [of "nat j" "str_nat (nat (- i))"] show ?thesis by simp
  next
    assume "\<not> i < 0" "j < 0"
    with eq have "str_nat (nat i) = CHR ''-'' # str_nat (nat (- j))" by (simp add: str_int_def)
    with hd_nonneg [of "nat i" "str_nat (nat (- j))"] show ?thesis by simp
  next
    assume "\<not> i < 0" "\<not> j < 0"
    with eq have "str_nat (nat i) = str_nat (nat j)" by (simp add: str_int_def)
    then have "nat i = nat j" by (rule str_nat_inj)
    with \<open>\<not> i < 0\<close> \<open>\<not> j < 0\<close> show ?thesis by simp
  qed
qed

section \<open>Properties of the loops\<close>

lemma eligible_policies_filter:
  "eligible_policies catalog profile = filter (in_age_bounds profile) catalog"
  by (induction catalog) (auto simp: in_age_bounds_def dict_get_def Let_def)

text \<open>The scoring loop keeps the order of its input and records the score it computed.\<close>

lemma score_policies_subseq:
  "score_policies profile ps = Inr scored \<Longrightarrow> subseq (map policy scored) ps"
proof (induction ps arbitrary: scored)
  case Nil
  then show ?case by simp
next
  case (Cons p ps)
  then show ?case
    by (auto split: sum.splits if_splits)
qed

lemma score_policies_scores:
  "score_policies profile ps = Inr scored \<Longrightarrow> e \<in> set scored \<Longrightarrow>
     policy e \<in> set ps \<and> score_policy profile (policy e) = Inr (score e)"
proof (induction ps arbitrary: scored)
  case Nil
  then show ?case by simp
next
  case (Cons p ps)
  then show ?case
    by (fastforce split: sum.splits if_splits)
qed

section \<open>Evaluation on the scenarios\<close>

text \<open>Unfolding \<open>str_nat\<close> on a numeral, one digit at a time.\<close>

lemma str_nat_numeral:
  "str_nat (numeral k) =
     (if numeral k < (10::nat) then [digit_char (numeral k)]
      else str_nat (numeral k div 10) @ [digit_char (numeral k mod 10)])"
  by (rule str_nat.simps)

lemma str_nat_0: "str_nat 0 = ''0''"
  by (simp add: str_nat.simps digit_char_def)

lemma str_nat_1: "str_nat (Suc 0) = ''1''"
  by (simp add: str_nat.simps digit_char_def)

lemmas str_int_eval = str_int_def str_nat_numeral str_nat_0 str_nat_1 digit_char_def

lemma str_int_500000: "str_int 500000 = ''500000''"
  by (simp add: str_int_eval)

lemma str_int_250000: "str_int 250000 = ''250000''"
  by (simp add: str_int_eval)

lemma ref_A: "reference_premium scenario_A_policy = Inr (PyInt 5000)"
  by (simp add: reference_premium_def scenario_A_policy_def dict_get_def str_int_500000)

lemma ref_C: "reference_premium scenario_C_policy = Inr (PyInt 12000)"
  by (simp add: reference_premium_def scenario_C_policy_def first_value_def)

lemma ref_ulip: "reference_premium ulip_policy = Inr (PyInt 6000)"
  by (simp add: reference_premium_def ulip_policy_def dict_get_def str_int_250000)

lemma ref_travel: "reference_premium travel_policy = Inr (PyInt 300)"
  by (simp add: reference_premium_def travel_policy_def first_value_def)

lemma ref_none: "reference_premium no_premium_policy = Inl IndexError"
  by (simp add: reference_premium_def no_premium_policy_def first_value_def)

lemma ref_text: "reference_premium text_premium_policy = Inr (PyStr ''on request'')"
  by (simp add: reference_premium_def text_premium_policy_def first_value_def)

section \<open>Reference premium\<close>

text \<open>
  Claim C1. For a policy whose \<open>sum_insured\<close> is empty or is \<open>[0]\<close>, the reference premium
  is the first value of \<open>premium_yearly\<close> in insertion order (the mapping being non-empty,
  so that a first value exists). For any other policy it is the premium stored under the
  decimal string of the smallest sum insured, and the float infinity when that key is
  absent. The policy of Scenario C, with \<open>sum_insured = [0]\<close> and the single premium
  \<open>flat \<mapsto> 12000\<close>, has the reference premium 12000.
\<close>

theorem reference_premium_selection:
  "((sum_insured p = [] \<or> sum_insured p = [0]) \<and> premium_yearly p \<noteq> []
      \<longrightarrow> reference_premium p = Inr (snd (hd (premium_yearly p))))
   \<and> (sum_insured p \<noteq> [] \<and> sum_insured p \<noteq> [0]
      \<longrightarrow> reference_premium p =
            Inr (case map_of (premium_yearly p) (str_int (Min (set (sum_insured p)))) of
                   Some v \<Rightarrow> v | None \<Rightarrow> PyInf))
   \<and> reference_premium scenario_C_policy = Inr (PyInt 12000)"
proof (intro conjI impI)
  assume "(sum_insured p = [] \<or> sum_insured p = [0]) \<and> premium_yearly p \<noteq> []"
  then show "reference_premium p = Inr (snd (hd (premium_yearly p)))"
    by (cases "premium_yearly p") (auto simp: reference_premium_def first_value_def)
next
  assume a: "sum_insured p \<noteq> [] \<and> sum_insured p \<noteq> [0]"
  then have "py_min (sum_insured p) = Inr (Min (set (sum_insured p)))"
    by (simp add: py_min_Min)
  with a show "reference_premium p =
      Inr (case map_of (premium_yearly p) (str_int (Min (set (sum_insured p)))) of
             Some v \<Rightarrow> v | None \<Rightarrow> PyInf)"
    by (simp add: reference_premium_def dict_get_def split: option.splits)
next
  show "reference_premium scenario_C_policy = Inr (PyInt 12000)"
    by (rule ref_C)
qed

theorem reference_premium_selection_witness:
  "((sum_insured scenario_C_policy = [] \<or> sum_insured scenario_C_policy = [0])
      \<and> premium_yearly scenario_C_policy \<noteq> [])
   \<and> reference_premium scenario_C_policy = Inr (PyInt 12000)
   \<and> (sum_insured ulip_policy \<noteq> [] \<and> sum_insured ulip_policy \<noteq> [0])
   \<and> reference_premium ulip_policy = Inr (PyInt 6000)"
proof -
  have c: "(sum_insured scenario_C_policy = [] \<or> sum_insured scenario_C_policy = [0])
      \<and> premium_yearly scenario_C_policy \<noteq> []"
    by (simp add: scenario_C_policy_def)
  have u: "sum_insured ulip_policy \<noteq> [] \<and> sum_insured ulip_policy \<noteq> [0]"
    by (simp add: ulip_policy_def)
  have "reference_premium scenario_C_policy = Inr (snd (hd (premium_yearly scenario_C_policy)))"
    using reference_premium_selection [of scenario_C_policy] c by blast
  then have 1: "reference_premium scenario_C_policy = Inr (PyInt 12000)"
    by (simp add: scenario_C_policy_def)
  have "reference_premium ulip_policy =
      Inr (case map_of (premium_yearly ulip_policy) (str_int (Min (set (sum_insured ulip_policy)))) of
             Some v \<Rightarrow> v | None \<Rightarrow> PyInf)"
    using reference_premium_selection [of ulip_policy] u by blast
  then have 2: "reference_premium ulip_policy = Inr (PyInt 6000)"
    by (simp add: ulip_policy_def str_int_250000)
  show ?thesis
    by (rule conjI [OF c conjI [OF 1 conjI [OF u 2]]])
qed

section \<open>Scoring one policy\<close>

text \<open>Converting the band to a float.\<close>

lemma float_of_int_zero: "float_of_int 0 = Inr 0"
  by (simp add: float_of_int_def round_double_def)

lemma float_of_int_bounded:
  assumes "\<bar>b\<bar> < 2 ^ 1023"
  shows "float_of_int b = Inr (round_double (of_int b))"
proof -
  have "\<bar>of_int b :: rat\<bar> < of_int (2 ^ 1023)"
    using assms by (simp only: of_int_less_iff flip: of_int_abs)
  then have "\<bar>of_int b :: rat\<bar> < 2 ^ 1023" by simp
  then have "\<bar>round_double (of_int b)\<bar> < 2 ^ 1024" by (rule round_double_bounded)
  then show ?thesis
    by (simp add: float_of_int_def Let_def)
qed

lemma round_double_of_int_sign:
  "0 < b \<Longrightarrow> 1 \<le> round_double (of_int b)"
  "b < 0 \<Longrightarrow> round_double (of_int b) \<le> - 1"
proof -
  show "1 \<le> round_double (of_int b)" if "0 < b"
    using that by (intro round_double_ge_one) simp
  show "round_double (of_int b) \<le> - 1" if "b < 0"
  proof -
    from that have "(1::rat) \<le> of_int (- b)" by simp
    then have "1 \<le> round_double (of_int (- b))" by (rule round_double_ge_one)
    then show ?thesis by (simp add: round_double_minus)
  qed
qed

lemma float_of_int_sign:
  assumes "float_of_int b = Inr y"
  shows "0 < b \<Longrightarrow> 0 < y" and "b < 0 \<Longrightarrow> y < 0" and "y = 0 \<longleftrightarrow> b = 0"
proof -
  from assms have y: "y = round_double (of_int b)"
    by (simp add: float_of_int_def Let_def split: if_splits)
  show "0 < y" if "0 < b"
    using round_double_of_int_sign(1) [OF that] y by simp
  show "y < 0" if "b < 0"
    using round_double_of_int_sign(2) [OF that] y by simp
  show "y = 0 \<longleftrightarrow> b = 0"
    by (simp add: y round_double_of_int_eq_0)
qed



text \<open>The quotient of two integers against the two literals.\<close>

lemma quotient_compare:
  fixes a b :: int
  assumes a: "0 \<le> a" and b: "b \<noteq> 0" "\<bar>b\<bar> \<le> 2 ^ 53"
  shows "round_double (of_int a / of_int b) < literal_0_2 \<longleftrightarrow> of_int a / of_int b < (1/5 :: rat)"
    and "round_double (of_int a / of_int b) < literal_0_5 \<longleftrightarrow> of_int a / of_int b < (1/2 :: rat)"
proof -
  let ?x = "of_int a / of_int b :: rat"
  have l2: "0 < literal_0_2" by (simp add: literal_0_2_eq)
  have l5: "0 < literal_0_5" by (simp add: literal_0_5_eq)
  show "round_double ?x < literal_0_2 \<longleftrightarrow> ?x < 1/5"
  proof (cases "0 < b")
    case True
    with b have bb: "b \<le> 2 ^ 53" by simp
    show ?thesis
    proof
      assume r: "round_double ?x < literal_0_2"
      show "?x < 1/5"
      proof (rule ccontr)
        assume "\<not> ?x < 1/5"
        then have "1/5 \<le> ?x" by simp
        then have "literal_0_2 \<le> round_double ?x" by (rule round_ge_fifth)
        with r show False by simp
      qed
    next
      assume "?x < 1/5"
      with a True bb show "round_double ?x < literal_0_2" by (rule round_lt_fifth)
    qed
  next
    case False
    with b have "b < 0" by simp
    with a have x: "?x \<le> 0" by (simp add: divide_nonneg_neg)
    then have "round_double ?x \<le> 0" by (rule round_double_nonpos)
    with l2 have "round_double ?x < literal_0_2" by simp
    moreover have "?x < 1/5"
    proof -
      have "(0::rat) < 1/5" by simp
      with x show ?thesis by (rule le_less_trans)
    qed
    ultimately show ?thesis by simp
  qed
  show "round_double ?x < literal_0_5 \<longleftrightarrow> ?x < 1/2"
  proof (cases "0 < b")
    case True
    with b have bb: "b \<le> 2 ^ 53" by simp
    show ?thesis
    proof
      assume r: "round_double ?x < literal_0_5"
      show "?x < 1/2"
      proof (rule ccontr)
        assume "\<not> ?x < 1/2"
        then have "1/2 \<le> ?x" by simp
        then have "literal_0_5 \<le> round_double ?x" by (rule round_ge_half)
        with r show False by simp
      qed
    next
      assume "?x < 1/2"
      with a True bb show "round_double ?x < literal_0_5" by (rule round_lt_half)
    qed
  next
    case False
    with b have "b < 0" by simp
    with a have x: "?x \<le> 0" by (simp add: divide_nonneg_neg)
    then have "round_double ?x \<le> 0" by (rule round_double_nonpos)
    with l5 have "round_double ?x < literal_0_5" by simp
    moreover have "?x < 1/2"
    proof -
      have "(0::rat) < 1/2" by simp
      with x show ?thesis by (rule le_less_trans)
    qed
    ultimately show ?thesis by simp
  qed
qed

lemma quotient_no_overflow:
  fixes a b :: int
  assumes a: "0 \<le> a" "a < 2 ^ 1023" and b: "b \<noteq> 0"
  shows "\<bar>round_double (of_int a / of_int b)\<bar> < 2 ^ 1024"
proof (rule round_double_bounded)
  have one: "(1::rat) \<le> \<bar>of_int b\<bar>"
  proof -
    from b have "1 \<le> \<bar>b\<bar>" by simp
    then have "(of_int 1 :: rat) \<le> of_int \<bar>b\<bar>" by (simp only: of_int_le_iff)
    then show ?thesis by simp
  qed
  have "\<bar>of_int a / of_int b :: rat\<bar> = of_int a / \<bar>of_int b\<bar>"
    using a by simp
  also have "\<dots> \<le> of_int a"
    using a one by (simp add: divide_le_eq_1 field_simps mult_le_cancel_left1)
  also have "\<dots> < of_int (2 ^ 1023)"
    using a by (simp only: of_int_less_iff)
  finally show "\<bar>of_int a / of_int b :: rat\<bar> < 2 ^ 1023" by simp
qed

text \<open>The quantity \<open>abs(reference_premium - band) / band\<close> by kind of premium.\<close>

lemma premium_diff_percent_PyInt_unfold:
  "band \<noteq> 0 \<Longrightarrow>
     premium_diff_percent (PyInt r) band =
       (if 2 ^ 1024 \<le> \<bar>round_double (of_int \<bar>r - band\<bar> / of_int band)\<bar>
        then Inl OverflowError
        else Inr (Finite (round_double (of_int \<bar>r - band\<bar> / of_int band))))"
  by (simp add: premium_diff_percent_def Let_def)

lemma premium_diff_percent_PyInt:
  assumes "band \<noteq> 0" and "\<bar>band\<bar> \<le> 2 ^ 53" and "\<bar>r - band\<bar> < 2 ^ 1023"
  shows "\<exists>q. premium_diff_percent (PyInt r) band = Inr (Finite q)
    \<and> (q < literal_0_2 \<longleftrightarrow> \<bar>of_int r - of_int band\<bar> / of_int band < (1/5 :: rat))
    \<and> (q < literal_0_5 \<longleftrightarrow> \<bar>of_int r - of_int band\<bar> / of_int band < (1/2 :: rat))"
proof -
  let ?a = "\<bar>r - band\<bar>"
  let ?q = "round_double (of_int ?a / of_int band)"
  have a: "0 \<le> ?a" by simp
  have ex: "(of_int ?a :: rat) = \<bar>of_int r - of_int band\<bar>" by simp
  have "\<bar>?q\<bar> < 2 ^ 1024"
    using a assms(3) assms(1) by (rule quotient_no_overflow)
  then have "premium_diff_percent (PyInt r) band = Inr (Finite ?q)"
    using assms(1) by (simp add: premium_diff_percent_PyInt_unfold)
  moreover have "?q < literal_0_2 \<longleftrightarrow> \<bar>of_int r - of_int band\<bar> / of_int band < (1/5 :: rat)"
    using quotient_compare(1) [OF a assms(1,2)] by (simp only: ex)
  moreover have "?q < literal_0_5 \<longleftrightarrow> \<bar>of_int r - of_int band\<bar> / of_int band < (1/2 :: rat)"
    using quotient_compare(2) [OF a assms(1,2)] by (simp only: ex)
  ultimately show ?thesis by blast
qed

lemma premium_diff_percent_PyInf:
  assumes "band \<noteq> 0" and "\<bar>band\<bar> < 2 ^ 1023"
  shows "premium_diff_percent PyInf band = Inr (if 0 < band then PosInf else NegInf)"
proof -
  from assms(2) have f: "float_of_int band = Inr (round_double (of_int band))"
    by (rule float_of_int_bounded)
  from float_of_int_sign [OF f] assms(1)
  have s: "0 < band \<Longrightarrow> 0 < round_double (of_int band)"
    "band < 0 \<Longrightarrow> round_double (of_int band) < 0"
    "round_double (of_int band) \<noteq> 0"
    by simp_all
  show ?thesis
  proof (cases "0 < band")
    case True
    with s(1) show ?thesis
      by (simp add: premium_diff_percent_def f)
  next
    case False
    with assms(1) have "band < 0" by simp
    with s(2) show ?thesis
      by (simp add: premium_diff_percent_def f)
  qed
qed

lemma premium_diff_percent_zero:
  "v = PyInt r \<or> v = PyFloat x \<Longrightarrow> premium_diff_percent v 0 = Inl ZeroDivisionError"
  by (auto simp: premium_diff_percent_def float_of_int_zero)

lemma premium_diff_percent_non_numeric:
  "v = PyStr s \<or> v = PyNone \<Longrightarrow> premium_diff_percent v band = Inl TypeError"
  by (auto simp: premium_diff_percent_def)



text \<open>The score of a policy, by kind of premium.\<close>

lemma score_policy_Inr:
  assumes "score_policy profile p = Inr s"
  obtains ref diff where "reference_premium p = Inr ref"
    and "premium_diff_percent ref (preferred_premium_band profile) = Inr diff"
    and "s = (if float_lt diff literal_0_2 then 3 else if float_lt diff literal_0_5 then 1 else 0)
           + (if low_risk_match profile p then 2 else 0)
           + (if high_risk_match profile p then 3 else 0)"
  using assms by (auto simp: score_policy_def Let_def split: sum.splits if_splits)

lemma score_policy_diff:
  assumes "reference_premium p = Inr ref"
    and "premium_diff_percent ref (preferred_premium_band profile) = Inr diff"
  shows "score_policy profile p =
     Inr ((if float_lt diff literal_0_2 then 3 else if float_lt diff literal_0_5 then 1 else 0)
          + (if low_risk_match profile p then 2 else 0)
          + (if high_risk_match profile p then 3 else 0))"
  using assms by (simp add: score_policy_def Let_def)

lemma score_policy_PyInt:
  assumes "reference_premium p = Inr (PyInt r)" and "preferred_premium_band profile \<noteq> 0"
    and "\<bar>preferred_premium_band profile\<bar> \<le> 2 ^ 53"
    and "\<bar>r - preferred_premium_band profile\<bar> < 2 ^ 1023"
  shows "score_policy profile p =
     Inr ((if \<bar>of_int r - of_int (preferred_premium_band profile)\<bar>
                / of_int (preferred_premium_band profile) < (2/10 :: rat) then 3
           else if \<bar>of_int r - of_int (preferred_premium_band profile)\<bar>
                / of_int (preferred_premium_band profile) < (5/10 :: rat) then 1 else 0)
          + (if low_risk_match profile p then 2 else 0)
          + (if high_risk_match profile p then 3 else 0))"
proof -
  from premium_diff_percent_PyInt [OF assms(2,3,4)] obtain q
    where q: "premium_diff_percent (PyInt r) (preferred_premium_band profile) = Inr (Finite q)"
      and c2: "q < literal_0_2 \<longleftrightarrow>
        \<bar>of_int r - of_int (preferred_premium_band profile)\<bar>
          / of_int (preferred_premium_band profile) < (1/5 :: rat)"
      and c5: "q < literal_0_5 \<longleftrightarrow>
        \<bar>of_int r - of_int (preferred_premium_band profile)\<bar>
          / of_int (preferred_premium_band profile) < (1/2 :: rat)"
    by blast
  show ?thesis
    unfolding score_policy_diff [OF assms(1) q]
    by (simp add: c2 c5)
qed

lemma score_policy_PyInf:
  assumes "reference_premium p = Inr PyInf" and "preferred_premium_band profile \<noteq> 0"
    and "\<bar>preferred_premium_band profile\<bar> < 2 ^ 1023"
  shows "score_policy profile p =
     Inr ((if preferred_premium_band profile < 0 then 3 else 0)
          + (if low_risk_match profile p then 2 else 0)
          + (if high_risk_match profile p then 3 else 0))"
  unfolding score_policy_diff [OF assms(1) premium_diff_percent_PyInf [OF assms(2,3)]]
  using assms(2) by simp


lemma score_policy_zero_band:
  assumes "reference_premium p = Inr v" and "v = PyInt r \<or> v = PyFloat x"
    and "preferred_premium_band profile = 0"
  shows "score_policy profile p = Inl ZeroDivisionError"
  using assms(1,3) premium_diff_percent_zero [OF assms(2)] by (simp add: score_policy_def)

lemma score_policy_non_numeric:
  assumes "reference_premium p = Inr v" and "v = PyStr s \<or> v = PyNone"
  shows "score_policy profile p = Inl TypeError"
  using assms(1) premium_diff_percent_non_numeric [OF assms(2)] by (simp add: score_policy_def)

lemma score_policy_reference_error:
  "reference_premium p = Inl e \<Longrightarrow> score_policy profile p = Inl e"
  by (simp add: score_policy_def)

lemma risk_matches_exclusive: "\<not> (low_risk_match profile p \<and> high_risk_match profile p)"
  by (auto simp: low_risk_match_def high_risk_match_def)

subsection \<open>The scores of the scenarios\<close>

lemma profile_fields:
  "age scenario_A_profile = 30" "risk_tolerance scenario_A_profile = ''Low''"
  "preferred_premium_band scenario_A_profile = 5000"
  "age zero_band_profile = 30" "risk_tolerance zero_band_profile = ''Low''"
  "preferred_premium_band zero_band_profile = 0"
  "age negative_band_profile = 30" "risk_tolerance negative_band_profile = ''Low''"
  "preferred_premium_band negative_band_profile = - 1"
  "age high_risk_profile = 30" "risk_tolerance high_risk_profile = ''High''"
  "preferred_premium_band high_risk_profile = 5000"
  "age rounding_profile = 30" "risk_tolerance rounding_profile = ''Low''"
  "preferred_premium_band rounding_profile = 500000000000000000"
  "age unit_band_profile = 30" "risk_tolerance unit_band_profile = ''Low''"
  "preferred_premium_band unit_band_profile = 1"
  by (simp_all add: scenario_A_profile_def zero_band_profile_def negative_band_profile_def
      high_risk_profile_def rounding_profile_def unit_band_profile_def)

lemma in_age_bounds_30:
  assumes "age profile = 30"
  shows "in_age_bounds profile scenario_A_policy" "in_age_bounds profile scenario_C_policy"
    "in_age_bounds profile no_premium_policy" "in_age_bounds profile text_premium_policy"
    "in_age_bounds profile ulip_policy" "in_age_bounds profile travel_policy"
    "in_age_bounds profile rounding_policy" "in_age_bounds profile overflow_policy"
    "in_age_bounds profile nan_premium_policy" "in_age_bounds profile decimal_premium_policy"
  using assms
  by (simp_all add: in_age_bounds_def scenario_A_policy_def scenario_C_policy_def
      no_premium_policy_def text_premium_policy_def ulip_policy_def travel_policy_def
      rounding_policy_def overflow_policy_def nan_premium_policy_def
      decimal_premium_policy_def)

lemma low_risk_eval:
  assumes "risk_tolerance profile = ''Low''"
  shows "low_risk_match profile scenario_A_policy" "\<not> low_risk_match profile scenario_C_policy"
    "\<not> low_risk_match profile ulip_policy" "\<not> low_risk_match profile travel_policy"
    "\<not> low_risk_match profile rounding_policy" "\<not> low_risk_match profile overflow_policy"
    "\<not> low_risk_match profile nan_premium_policy"
    "\<not> low_risk_match profile decimal_premium_policy"
    "\<not> high_risk_match profile p"
  using assms
  by (simp_all add: low_risk_match_def high_risk_match_def scenario_A_policy_def
      scenario_C_policy_def ulip_policy_def travel_policy_def rounding_policy_def
      overflow_policy_def nan_premium_policy_def decimal_premium_policy_def)

lemma high_risk_eval:
  assumes "risk_tolerance profile = ''High''"
  shows "high_risk_match profile ulip_policy" "\<not> high_risk_match profile scenario_A_policy"
    "\<not> low_risk_match profile p"
  using assms
  by (simp_all add: low_risk_match_def high_risk_match_def scenario_A_policy_def ulip_policy_def)

lemma scores_scenario_A_profile:
  "score_policy scenario_A_profile scenario_A_policy = Inr 5"
  "score_policy scenario_A_profile scenario_C_policy = Inr 0"
  "score_policy scenario_A_profile ulip_policy = Inr 1"
  "score_policy scenario_A_profile travel_policy = Inr 0"
  "score_policy scenario_A_profile text_premium_policy = Inl TypeError"
  "score_policy scenario_A_profile no_premium_policy = Inl IndexError"
  by (simp_all add: score_policy_PyInt [OF ref_A] score_policy_PyInt [OF ref_C]
      score_policy_PyInt [OF ref_ulip] score_policy_PyInt [OF ref_travel]
      score_policy_non_numeric [OF ref_text] score_policy_reference_error [OF ref_none]
      profile_fields low_risk_eval)

lemma scores_zero_band_profile:
  "score_policy zero_band_profile scenario_A_policy = Inl ZeroDivisionError"
  "score_policy zero_band_profile text_premium_policy = Inl TypeError"
  "score_policy zero_band_profile no_premium_policy = Inl IndexError"
  by (simp_all add: score_policy_zero_band [OF ref_A] score_policy_non_numeric [OF ref_text]
      score_policy_reference_error [OF ref_none] profile_fields)


lemma scores_high_risk_profile:
  "score_policy high_risk_profile ulip_policy = Inr 4"
  "score_policy high_risk_profile scenario_A_policy = Inr 3"
  by (simp_all add: score_policy_PyInt [OF ref_A] score_policy_PyInt [OF ref_ulip]
      profile_fields high_risk_eval)

text \<open>The reference premiums of the policies with an unusual premium.\<close>

lemma ref_rounding: "reference_premium rounding_policy = Inr (PyInt 599999999999999999)"
  by (simp add: reference_premium_def rounding_policy_def first_value_def)

lemma ref_overflow: "reference_premium overflow_policy = Inr (PyInt (10 ^ 309))"
  by (simp add: reference_premium_def overflow_policy_def first_value_def)


lemma ref_decimal: "reference_premium decimal_premium_policy = Inr (PyFloat (Finite (10001 / 2)))"
  by (simp add: reference_premium_def decimal_premium_policy_def first_value_def)

text \<open>
  Eighteen digits: the exact quotient is below one fifth, its nearest double is the double
  of the literal \<^verbatim>\<open>0.2\<close>, and the score is 1.
\<close>

lemma diff_rounding:
  "\<exists>q. premium_diff_percent (PyInt 599999999999999999) 500000000000000000 = Inr (Finite q)
       \<and> literal_0_2 \<le> q \<and> q < literal_0_5"
proof -
  let ?x = "99999999999999999 / 500000000000000000 :: rat"
  let ?q = "round_double ?x"
  have lo: "literal_0_2 \<le> ?q"
  proof -
    have "of_int 7205759403792794 * 2 powi (- 3 - 52) \<le> ?q"
      by (rule round_double_lower) (simp_all add: power_int_minus)
    then show ?thesis
      by (simp add: literal_0_2_eq power_int_minus field_simps)
  qed
  have up: "?q \<le> 1/4"
  proof -
    have "?q \<le> of_int (2 ^ 53) * 2 powi (- 3 - 52)"
      by (rule round_double_upper) (simp_all add: power_int_minus)
    then show ?thesis
      by (simp add: power_int_minus field_simps)
  qed
  have nn: "0 \<le> ?q"
    by (rule round_double_nonneg) simp
  from up nn have "\<bar>?q\<bar> < 2 ^ 1024" by simp
  then have "premium_diff_percent (PyInt 599999999999999999) 500000000000000000
      = Inr (Finite ?q)"
    by (simp add: premium_diff_percent_PyInt_unfold)
  moreover from up have "?q < literal_0_5"
    by (simp add: literal_0_5_eq)
  ultimately show ?thesis
    using lo by blast
qed

lemma score_rounding: "score_policy rounding_profile rounding_policy = Inr 1"
proof -
  from diff_rounding obtain q
    where q: "premium_diff_percent (PyInt 599999999999999999)
        (preferred_premium_band rounding_profile) = Inr (Finite q)"
      and lo: "literal_0_2 \<le> q" and up: "q < literal_0_5"
    by (auto simp: profile_fields)
  from lo have "\<not> q < literal_0_2" by simp
  with up show ?thesis
    unfolding score_policy_diff [OF ref_rounding q]
    by (simp add: low_risk_eval profile_fields)
qed

text \<open>A quotient beyond the largest double: the division raises \<^verbatim>\<open>OverflowError\<close>.\<close>

lemma diff_overflow:
  assumes "2 ^ 1024 < r"
  shows "premium_diff_percent (PyInt r) 1 = Inl OverflowError"
proof -
  let ?x = "of_int \<bar>r - 1\<bar> / of_int 1 :: rat"
  from assms have "2 ^ 1024 \<le> \<bar>r - 1\<bar>" by simp
  then have "(of_int (2 ^ 1024) :: rat) \<le> of_int \<bar>r - 1\<bar>"
    by (simp only: of_int_le_iff)
  then have x: "2 ^ 1024 \<le> ?x" by simp
  have "of_int (2 ^ 52) * 2 powi (1024 - 52) \<le> round_double ?x"
  proof (rule round_double_lower)
    show "2 powi 1024 \<le> ?x" using x by simp
    have "of_int (2 ^ 52) - 1/2 < (2 ^ 52 :: rat)" by simp
    also have "\<dots> \<le> ?x / 2 powi (1024 - 52)"
      using x by (simp add: field_simps)
    finally show "of_int (2 ^ 52) - 1/2 < ?x / 2 powi (1024 - 52)" .
  qed simp_all
  then have "2 ^ 1024 \<le> round_double ?x" by simp
  then have "2 ^ 1024 \<le> \<bar>round_double ?x\<bar>" by simp
  then show ?thesis
    using premium_diff_percent_PyInt_unfold [of 1 r] by simp
qed

lemma score_overflow: "score_policy unit_band_profile overflow_policy = Inl OverflowError"
proof -
  have "premium_diff_percent (PyInt (10 ^ 309)) (preferred_premium_band unit_band_profile)
      = Inl OverflowError"
    unfolding profile_fields by (rule diff_overflow) simp
  then show ?thesis
    unfolding score_policy_def ref_overflow by simp
qed


text \<open>A premium of 5000.5 against a band of 5000.\<close>

lemma score_decimal: "score_policy scenario_A_profile decimal_premium_policy = Inr 3"
proof -
  have f: "float_of_int 5000 = Inr 5000"
    using float_of_int_bounded [of 5000] round_double_of_int_exact [of 5000] by simp
  have s: "ieee (1/2) = Finite (1/2)"
    by (simp add: ieee_def round_double_half)
  let ?r = "round_double (1 / 10000)"
  have r: "0 \<le> ?r" "?r \<le> 1/8"
    by (rule round_double_le_eighth; simp)+
  then have d: "ieee (1 / 10000) = Finite ?r"
    by (simp add: ieee_def Let_def)
  have "premium_diff_percent (PyFloat (Finite (10001 / 2))) (preferred_premium_band scenario_A_profile)
      = Inr (Finite ?r)"
    by (simp add: premium_diff_percent_def profile_fields f s d)
  moreover from r have "?r < literal_0_2"
    by (simp add: literal_0_2_eq)
  ultimately show ?thesis
    unfolding score_policy_def
    by (simp add: ref_decimal low_risk_eval profile_fields)
qed

lemma policies_distinct:
  "scenario_A_policy \<noteq> scenario_C_policy" "scenario_C_policy \<noteq> travel_policy"
  by (simp_all add: scenario_A_policy_def scenario_C_policy_def travel_policy_def)

lemma quote_A: "get_quote [scenario_A_policy] scenario_A_profile = Inr [scenario_A_policy]"
  by (simp add: get_quote_def eligible_policies_filter in_age_bounds_30 profile_fields
      scores_scenario_A_profile)

lemma quote_four:
  "get_quote [scenario_C_policy, text_premium_policy, ulip_policy, scenario_A_policy, travel_policy]
     scenario_A_profile = Inr [scenario_A_policy, ulip_policy, scenario_C_policy]"
  by (simp add: get_quote_def eligible_policies_filter in_age_bounds_30 profile_fields
      scores_scenario_A_profile)

lemma quote_index_error:
  "get_quote [no_premium_policy, scenario_A_policy] scenario_A_profile = Inl IndexError"
  by (simp add: get_quote_def eligible_policies_filter in_age_bounds_30 profile_fields
      scores_scenario_A_profile)

section \<open>The scoring formula\<close>

lemma quote_rounding: "get_quote [rounding_policy] rounding_profile = Inr [rounding_policy]"
  by (simp add: get_quote_def eligible_policies_filter in_age_bounds_30 profile_fields
      score_rounding)

text \<open>
  Claim C2 as stated fails. The policy is eligible, its reference premium is
  599999999999999999 and the preferred band is 500000000000000000, so that
  \<open>|r - band| / band\<close> is less than 0.2 and no risk bonus applies: the claim gives the score
  3. The code divides in double precision, the quotient rounds to the double of \<^verbatim>\<open>0.2\<close>
  itself, the first comparison fails, and the score is 1.
\<close>

theorem scoring_rounding_counterexample:
  "in_age_bounds rounding_profile rounding_policy
   \<and> reference_premium rounding_policy = Inr (PyInt 599999999999999999)
   \<and> preferred_premium_band rounding_profile = 500000000000000000
   \<and> \<bar>of_int 599999999999999999 - of_int 500000000000000000\<bar>
        / of_int 500000000000000000 < (2/10 :: rat)
   \<and> risk_tolerance rounding_profile = ''Low''
   \<and> type rounding_policy = ''motor''
   \<and> score_policy rounding_profile rounding_policy = Inr 1
   \<and> get_quote [rounding_policy] rounding_profile = Inr [rounding_policy]"
proof -
  have a: "in_age_bounds rounding_profile rounding_policy"
    by (simp add: in_age_bounds_30 profile_fields)
  have b: "preferred_premium_band rounding_profile = 500000000000000000"
    by (simp add: profile_fields)
  have d: "\<bar>of_int 599999999999999999 - of_int 500000000000000000\<bar>
        / of_int 500000000000000000 < (2/10 :: rat)"
    by simp
  have r: "risk_tolerance rounding_profile = ''Low''"
    by (simp add: profile_fields)
  have t: "type rounding_policy = ''motor''"
    by (simp add: rounding_policy_def)
  show ?thesis
    by (rule conjI [OF a conjI [OF ref_rounding conjI [OF b conjI [OF d conjI [OF r
          conjI [OF t conjI [OF score_rounding quote_rounding]]]]]]])
qed

text \<open>
  Claim C2, amended. A policy is scored exactly when its reference premium resolves and
  the quantity \<open>diff = abs(reference_premium - band) / band\<close> has a value, and the score is
  then the sum of three terms: 3 if \<open>diff < 0.2\<close>, else 1 if \<open>diff < 0.5\<close>, else 0, where
  \<open>diff\<close> is the float that Python computes and \<^verbatim>\<open>0.2\<close> and \<^verbatim>\<open>0.5\<close> are the doubles of
  these literals; plus 2 if the risk tolerance is \<open>Low\<close> and the policy type is \<open>life\<close> or
  \<open>health\<close>; plus 3 if the risk tolerance is \<open>High\<close> and \<open>ULIP\<close> is a substring of the policy
  name. Any other risk tolerance makes both risk terms zero. For an integer reference
  premium \<open>r\<close>, a non-zero band of magnitude at most \<open>2 ^ 53\<close> and \<open>|r - band| < 2 ^ 1023\<close>,
  the two comparisons are those of the exact quotient \<open>|r - band| / band\<close> with one fifth
  and one half. For the infinite reference premium of an absent key and a non-zero band
  below \<open>2 ^ 1023\<close> in magnitude, the first term is 0 for a positive band and 3 for a
  negative one. In Scenario A the policy is scored 5 and returned.
\<close>

theorem scoring_formula:
  "(score_policy profile p = Inr s \<longleftrightarrow>
      (\<exists>ref diff. reference_premium p = Inr ref
         \<and> premium_diff_percent ref (preferred_premium_band profile) = Inr diff
         \<and> s = (if float_lt diff literal_0_2 then 3 else if float_lt diff literal_0_5 then 1 else 0)
             + (if risk_tolerance profile = ''Low'' \<and> (type p = ''life'' \<or> type p = ''health'')
                then 2 else 0)
             + (if risk_tolerance profile = ''High'' \<and> sublist ''ULIP'' (name p) then 3 else 0)))
   \<and> literal_0_2 = 7205759403792794 / 2 ^ 55 \<and> literal_0_5 = 1 / 2
   \<and> (reference_premium p = Inr (PyInt r) \<and> preferred_premium_band profile \<noteq> 0
        \<and> \<bar>preferred_premium_band profile\<bar> \<le> 2 ^ 53
        \<and> \<bar>r - preferred_premium_band profile\<bar> < 2 ^ 1023
      \<longrightarrow> score_policy profile p =
          Inr ((let band = preferred_premium_band profile;
                    diff = \<bar>of_int r - of_int band\<bar> / of_int band :: rat
                in if diff < 1/5 then 3 else if diff < 1/2 then 1 else 0)
               + (if risk_tolerance profile = ''Low'' \<and> (type p = ''life'' \<or> type p = ''health'')
                  then 2 else 0)
               + (if risk_tolerance profile = ''High'' \<and> sublist ''ULIP'' (name p) then 3 else 0)))
   \<and> (reference_premium p = Inr PyInf \<and> preferred_premium_band profile \<noteq> 0
        \<and> \<bar>preferred_premium_band profile\<bar> < 2 ^ 1023
      \<longrightarrow> score_policy profile p =
          Inr ((if preferred_premium_band profile < 0 then 3 else 0)
               + (if risk_tolerance profile = ''Low'' \<and> (type p = ''life'' \<or> type p = ''health'')
                  then 2 else 0)
               + (if risk_tolerance profile = ''High'' \<and> sublist ''ULIP'' (name p) then 3 else 0)))
   \<and> score_policies scenario_A_profile [scenario_A_policy]
        = Inr [\<lparr>policy = scenario_A_policy, score = 5\<rparr>]
   \<and> get_quote [scenario_A_policy] scenario_A_profile = Inr [scenario_A_policy]"
proof -
  have L: "low_risk_match profile p \<longleftrightarrow>
      risk_tolerance profile = ''Low'' \<and> (type p = ''life'' \<or> type p = ''health'')"
    by (auto simp: low_risk_match_def)
  have H: "high_risk_match profile p \<longleftrightarrow>
      risk_tolerance profile = ''High'' \<and> sublist ''ULIP'' (name p)"
    by (simp add: high_risk_match_def str_contains_sublist)
  have 1: "score_policy profile p = Inr s \<longleftrightarrow>
      (\<exists>ref diff. reference_premium p = Inr ref
         \<and> premium_diff_percent ref (preferred_premium_band profile) = Inr diff
         \<and> s = (if float_lt diff literal_0_2 then 3 else if float_lt diff literal_0_5 then 1 else 0)
             + (if risk_tolerance profile = ''Low'' \<and> (type p = ''life'' \<or> type p = ''health'')
                then 2 else 0)
             + (if risk_tolerance profile = ''High'' \<and> sublist ''ULIP'' (name p) then 3 else 0))"
    (is "?l \<longleftrightarrow> ?r")
  proof
    assume ?l
    then show ?r
      by (rule score_policy_Inr) (auto simp: L H)
  next
    assume ?r
    then obtain ref diff where "reference_premium p = Inr ref"
      and "premium_diff_percent ref (preferred_premium_band profile) = Inr diff"
      and s: "s = (if float_lt diff literal_0_2 then 3 else if float_lt diff literal_0_5 then 1 else 0)
             + (if risk_tolerance profile = ''Low'' \<and> (type p = ''life'' \<or> type p = ''health'')
                then 2 else 0)
             + (if risk_tolerance profile = ''High'' \<and> sublist ''ULIP'' (name p) then 3 else 0)"
      by blast
    then show ?l
      by (simp add: score_policy_diff L H)
  qed
  have 2: "reference_premium p = Inr (PyInt r) \<and> preferred_premium_band profile \<noteq> 0
        \<and> \<bar>preferred_premium_band profile\<bar> \<le> 2 ^ 53
        \<and> \<bar>r - preferred_premium_band profile\<bar> < 2 ^ 1023
      \<longrightarrow> score_policy profile p =
          Inr ((let band = preferred_premium_band profile;
                    diff = \<bar>of_int r - of_int band\<bar> / of_int band :: rat
                in if diff < 1/5 then 3 else if diff < 1/2 then 1 else 0)
               + (if risk_tolerance profile = ''Low'' \<and> (type p = ''life'' \<or> type p = ''health'')
                  then 2 else 0)
               + (if risk_tolerance profile = ''High'' \<and> sublist ''ULIP'' (name p) then 3 else 0))"
  proof (intro impI, elim conjE)
    assume a: "reference_premium p = Inr (PyInt r)" "preferred_premium_band profile \<noteq> 0"
      "\<bar>preferred_premium_band profile\<bar> \<le> 2 ^ 53"
      "\<bar>r - preferred_premium_band profile\<bar> < 2 ^ 1023"
    show "score_policy profile p =
          Inr ((let band = preferred_premium_band profile;
                    diff = \<bar>of_int r - of_int band\<bar> / of_int band :: rat
                in if diff < 1/5 then 3 else if diff < 1/2 then 1 else 0)
               + (if risk_tolerance profile = ''Low'' \<and> (type p = ''life'' \<or> type p = ''health'')
                  then 2 else 0)
               + (if risk_tolerance profile = ''High'' \<and> sublist ''ULIP'' (name p) then 3 else 0))"
      unfolding score_policy_PyInt [OF a] Let_def
      by (simp add: L H)
  qed
  have 3: "reference_premium p = Inr PyInf \<and> preferred_premium_band profile \<noteq> 0
        \<and> \<bar>preferred_premium_band profile\<bar> < 2 ^ 1023
      \<longrightarrow> score_policy profile p =
          Inr ((if preferred_premium_band profile < 0 then 3 else 0)
               + (if risk_tolerance profile = ''Low'' \<and> (type p = ''life'' \<or> type p = ''health'')
                  then 2 else 0)
               + (if risk_tolerance profile = ''High'' \<and> sublist ''ULIP'' (name p) then 3 else 0))"
  proof (intro impI, elim conjE)
    assume a: "reference_premium p = Inr PyInf" "preferred_premium_band profile \<noteq> 0"
      "\<bar>preferred_premium_band profile\<bar> < 2 ^ 1023"
    show "score_policy profile p =
          Inr ((if preferred_premium_band profile < 0 then 3 else 0)
               + (if risk_tolerance profile = ''Low'' \<and> (type p = ''life'' \<or> type p = ''health'')
                  then 2 else 0)
               + (if risk_tolerance profile = ''High'' \<and> sublist ''ULIP'' (name p) then 3 else 0))"
      unfolding score_policy_PyInf [OF a]
      by (simp add: L H)
  qed
  have 4: "score_policies scenario_A_profile [scenario_A_policy]
        = Inr [\<lparr>policy = scenario_A_policy, score = 5\<rparr>]"
    by (simp add: scores_scenario_A_profile)
  show ?thesis
    by (rule conjI [OF 1 conjI [OF literal_0_2_eq conjI [OF literal_0_5_eq conjI [OF 2
          conjI [OF 3 conjI [OF 4 quote_A]]]]]])
qed

lemma str_int_100000: "str_int 100000 = ''100000''"
  by (simp add: str_int_eval)

lemma ref_missing_tier: "reference_premium missing_tier_policy = Inr PyInf"
  by (simp add: reference_premium_def missing_tier_policy_def dict_get_def str_int_100000)

theorem scoring_formula_witness:
  "reference_premium ulip_policy = Inr (PyInt 6000)
   \<and> preferred_premium_band high_risk_profile \<noteq> 0
   \<and> \<bar>preferred_premium_band high_risk_profile\<bar> \<le> 2 ^ 53
   \<and> \<bar>6000 - preferred_premium_band high_risk_profile\<bar> < 2 ^ 1023
   \<and> score_policy high_risk_profile ulip_policy = Inr 4
   \<and> reference_premium scenario_A_policy = Inr (PyInt 5000)
   \<and> score_policy scenario_A_profile scenario_A_policy = Inr 5
   \<and> reference_premium missing_tier_policy = Inr PyInf
   \<and> \<bar>preferred_premium_band scenario_A_profile\<bar> < 2 ^ 1023
   \<and> score_policy scenario_A_profile missing_tier_policy = Inr 2"
proof -
  have b: "preferred_premium_band high_risk_profile \<noteq> 0"
    "\<bar>preferred_premium_band high_risk_profile\<bar> \<le> 2 ^ 53"
    "\<bar>6000 - preferred_premium_band high_risk_profile\<bar> < 2 ^ 1023"
    by (simp_all add: profile_fields)
  have u: "sublist ''ULIP'' (name ulip_policy)"
    by (simp add: ulip_policy_def flip: str_contains_sublist)
  have 1: "score_policy high_risk_profile ulip_policy = Inr 4"
    using scoring_formula [of high_risk_profile ulip_policy 0 6000] ref_ulip b u
    by (simp add: profile_fields)
  have c: "preferred_premium_band scenario_A_profile \<noteq> 0"
    "\<bar>preferred_premium_band scenario_A_profile\<bar> \<le> 2 ^ 53"
    "\<bar>5000 - preferred_premium_band scenario_A_profile\<bar> < 2 ^ 1023"
    "\<bar>preferred_premium_band scenario_A_profile\<bar> < 2 ^ 1023"
    by (simp_all add: profile_fields)
  have t: "type scenario_A_policy = ''health''"
    by (simp add: scenario_A_policy_def)
  have 2: "score_policy scenario_A_profile scenario_A_policy = Inr 5"
    using scoring_formula [of scenario_A_profile scenario_A_policy 0 5000] ref_A c t
    by (simp add: profile_fields)
  have m: "type missing_tier_policy = ''life''"
    by (simp add: missing_tier_policy_def)
  have 3: "score_policy scenario_A_profile missing_tier_policy = Inr 2"
    using scoring_formula [of scenario_A_profile missing_tier_policy 0 0] ref_missing_tier c m
    by (simp add: profile_fields)
  show ?thesis
    by (rule conjI [OF ref_ulip conjI [OF b(1) conjI [OF b(2) conjI [OF b(3) conjI [OF 1
          conjI [OF ref_A conjI [OF 2 conjI [OF ref_missing_tier conjI [OF c(4) 3]]]]]]]]])
qed

section \<open>Eligibility\<close>

lemma get_quote_Inr:
  assumes "get_quote catalog profile = Inr recs"
  obtains scored where "score_policies profile (eligible_policies catalog profile) = Inr scored"
    and "recs = map policy (take 3 (sorted_reverse score scored))"
  using assms by (auto simp: get_quote_def Let_def split: sum.splits)

lemma get_quote_members:
  assumes "get_quote catalog profile = Inr recs" and "p \<in> set recs"
  shows "p \<in> set (eligible_policies catalog profile)"
proof -
  from assms(1) obtain scored
    where s: "score_policies profile (eligible_policies catalog profile) = Inr scored"
      and r: "recs = map policy (take 3 (sorted_reverse score scored))"
    by (rule get_quote_Inr)
  from assms(2) r obtain e where e: "e \<in> set (take 3 (sorted_reverse score scored))" "p = policy e"
    by auto
  from e(1) have "e \<in> set (sorted_reverse score scored)"
    by (rule in_set_takeD)
  then have "e \<in> set scored"
    by (simp add: set_sorted_reverse)
  with s e(2) show ?thesis
    by (simp add: score_policies_scores)
qed

text \<open>
  Claim C3. The eligibility loop keeps exactly the policies of the catalog with
  \<open>min_age \<le> profile.age \<le> max_age\<close>, the bounds defaulting to 0 and 100, in catalog
  order; and every policy among the returned recommendations is a catalog policy that
  satisfies these bounds for the requesting profile.
\<close>

theorem eligibility_filter:
  "eligible_policies catalog profile = filter (in_age_bounds profile) catalog
   \<and> (get_quote catalog profile = Inr recs
        \<longrightarrow> (\<forall>p \<in> set recs. p \<in> set catalog \<and> in_age_bounds profile p))"
proof (intro conjI impI ballI)
  show "eligible_policies catalog profile = filter (in_age_bounds profile) catalog"
    by (rule eligible_policies_filter)
next
  fix p
  assume "get_quote catalog profile = Inr recs" and "p \<in> set recs"
  then have "p \<in> set (eligible_policies catalog profile)"
    by (rule get_quote_members)
  then have "p \<in> set catalog \<and> in_age_bounds profile p"
    by (simp add: eligible_policies_filter)
  then show "p \<in> set catalog" and "in_age_bounds profile p"
    by simp_all
qed

lemma quote_B: "get_quote [scenario_A_policy] scenario_B_profile = Inr []"
  by (simp add: get_quote_def eligible_policies_filter in_age_bounds_def scenario_B_profile_def
      scenario_A_profile_def scenario_A_policy_def)

theorem eligibility_filter_witness:
  "get_quote [scenario_A_policy] scenario_A_profile = Inr [scenario_A_policy]
   \<and> in_age_bounds scenario_A_profile scenario_A_policy
   \<and> eligible_policies [scenario_A_policy] scenario_B_profile = []"
proof -
  have "\<forall>p \<in> set [scenario_A_policy].
         p \<in> set [scenario_A_policy] \<and> in_age_bounds scenario_A_profile p"
    using eligibility_filter [of "[scenario_A_policy]" scenario_A_profile "[scenario_A_policy]"]
      quote_A by blast
  then have 1: "in_age_bounds scenario_A_profile scenario_A_policy"
    by simp
  have "\<not> in_age_bounds scenario_B_profile scenario_A_policy"
    by (simp add: in_age_bounds_def scenario_B_profile_def scenario_A_profile_def
        scenario_A_policy_def)
  then have 2: "eligible_policies [scenario_A_policy] scenario_B_profile = []"
    using eligibility_filter [of "[scenario_A_policy]" scenario_B_profile "[]"] by simp
  show ?thesis
    by (rule conjI [OF quote_A conjI [OF 1 2]])
qed

section \<open>Errors in the scoring loop\<close>

lemma quote_text_premium:
  "get_quote [text_premium_policy, scenario_A_policy] scenario_A_profile = Inr [scenario_A_policy]"
  by (simp add: get_quote_def eligible_policies_filter in_age_bounds_30 profile_fields
      scores_scenario_A_profile)

lemma eligible_pair_30:
  "age profile = 30 \<Longrightarrow>
     eligible_policies [no_premium_policy, scenario_A_policy] profile
       = [no_premium_policy, scenario_A_policy]"
  by (simp add: eligible_policies_filter in_age_bounds_30)

text \<open>
  Claim C4, evaluated on the code. The catalog holds an eligible policy with an empty
  \<open>premium_yearly\<close> mapping on the first-value path, followed by the policy of Scenario A.
  Resolving the reference premium of the first policy raises \<open>IndexError\<close>, which the
  handler for \<open>ValueError\<close> and \<open>TypeError\<close> does not catch: the request fails with
  \<open>IndexError\<close> and the second policy is never scored. A policy whose premium is a string
  raises \<open>TypeError\<close> and is skipped, the remaining policy being returned.
\<close>

theorem empty_premium_not_skipped:
  "eligible_policies [no_premium_policy, scenario_A_policy] scenario_A_profile
     = [no_premium_policy, scenario_A_policy]
   \<and> premium_yearly no_premium_policy = []
   \<and> reference_premium no_premium_policy = Inl IndexError
   \<and> get_quote [no_premium_policy, scenario_A_policy] scenario_A_profile = Inl IndexError
   \<and> get_quote [text_premium_policy, scenario_A_policy] scenario_A_profile
       = Inr [scenario_A_policy]"
proof -
  have e: "eligible_policies [no_premium_policy, scenario_A_policy] scenario_A_profile
     = [no_premium_policy, scenario_A_policy]"
    by (rule eligible_pair_30) (simp add: profile_fields)
  have n: "premium_yearly no_premium_policy = []"
    by (simp add: no_premium_policy_def)
  show ?thesis
    by (rule conjI [OF e conjI [OF n conjI [OF ref_none
          conjI [OF quote_index_error quote_text_premium]]]])
qed

lemma quote_zero_band_A:
  "get_quote [scenario_A_policy] zero_band_profile = Inl ZeroDivisionError"
  by (simp add: get_quote_def eligible_policies_filter in_age_bounds_30 profile_fields
      scores_zero_band_profile)

lemma quote_zero_band_no_premium:
  "get_quote [no_premium_policy, scenario_A_policy] zero_band_profile = Inl IndexError"
  by (simp add: get_quote_def eligible_policies_filter in_age_bounds_30 profile_fields
      scores_zero_band_profile)

text \<open>
  Claim C5, evaluated on the code. With a preferred premium band of 0, the policy of
  Scenario A alone makes the request fail with \<open>ZeroDivisionError\<close>. When the eligible
  policy with the empty premium mapping precedes it, the request fails with \<open>IndexError\<close>
  before any division takes place.
\<close>

theorem zero_band_index_error:
  "preferred_premium_band zero_band_profile = 0
   \<and> eligible_policies [no_premium_policy, scenario_A_policy] zero_band_profile
       = [no_premium_policy, scenario_A_policy]
   \<and> reference_premium scenario_A_policy = Inr (PyInt 5000)
   \<and> get_quote [no_premium_policy, scenario_A_policy] zero_band_profile = Inl IndexError
   \<and> get_quote [scenario_A_policy] zero_band_profile = Inl ZeroDivisionError"
proof -
  have b: "preferred_premium_band zero_band_profile = 0"
    by (simp add: profile_fields)
  have e: "eligible_policies [no_premium_policy, scenario_A_policy] zero_band_profile
     = [no_premium_policy, scenario_A_policy]"
    by (rule eligible_pair_30) (simp add: profile_fields)
  show ?thesis
    by (rule conjI [OF b conjI [OF e conjI [OF ref_A
          conjI [OF quote_zero_band_no_premium quote_zero_band_A]]]])
qed

text \<open>With a zero band no policy is scored: the loop ends in an error or with nothing.\<close>

lemma reference_premium_error: "reference_premium p = Inl e \<Longrightarrow> e = IndexError"
  by (cases "sum_insured p"; cases "premium_yearly p")
    (auto simp: reference_premium_def first_value_def split: if_splits)

lemma score_policy_zero_band_cases:
  assumes "preferred_premium_band profile = 0"
  shows "score_policy profile p = Inl IndexError \<and> reference_premium p = Inl IndexError
       \<or> score_policy profile p = Inl TypeError
       \<or> score_policy profile p = Inl ZeroDivisionError"
proof (cases "reference_premium p")
  case (Inl e)
  then show ?thesis
    using reference_premium_error [OF Inl] by (simp add: score_policy_reference_error)
next
  case (Inr v)
  show ?thesis
  proof (cases v)
    case (PyInt r)
    then have "v = PyInt r \<or> v = PyFloat NaN" by simp
    with Inr have "score_policy profile p = Inl ZeroDivisionError"
      using assms by (rule score_policy_zero_band)
    then show ?thesis by simp
  next
    case (PyFloat x)
    then have "v = PyInt 0 \<or> v = PyFloat x" by simp
    with Inr have "score_policy profile p = Inl ZeroDivisionError"
      using assms by (rule score_policy_zero_band)
    then show ?thesis by simp
  next
    case (PyStr s)
    then have "v = PyStr s \<or> v = PyNone" by simp
    with Inr have "score_policy profile p = Inl TypeError"
      by (rule score_policy_non_numeric)
    then show ?thesis by simp
  next
    case PyNone
    then have "v = PyStr [] \<or> v = PyNone" by simp
    with Inr have "score_policy profile p = Inl TypeError"
      by (rule score_policy_non_numeric)
    then show ?thesis by simp
  qed
qed

lemma score_policies_zero_band:
  assumes "preferred_premium_band profile = 0"
  shows "(score_policies profile ps = Inl IndexError
            \<and> (\<exists>q \<in> set ps. reference_premium q = Inl IndexError))
       \<or> score_policies profile ps = Inl ZeroDivisionError
       \<or> (score_policies profile ps = Inr []
            \<and> (\<forall>q \<in> set ps. score_policy profile q = Inl TypeError))"
proof (induction ps)
  case Nil
  then show ?case by simp
next
  case (Cons p ps)
  from score_policy_zero_band_cases [OF assms, of p] Cons show ?case
    by (elim disjE) auto
qed

lemma zero_band_fails:
  assumes "preferred_premium_band profile = 0"
    and "p \<in> set (eligible_policies catalog profile)"
    and "reference_premium p = Inr v" and "v = PyInt r \<or> v = PyFloat x"
  shows "get_quote catalog profile = Inl ZeroDivisionError
       \<or> (get_quote catalog profile = Inl IndexError
            \<and> (\<exists>q \<in> set (eligible_policies catalog profile).
                  reference_premium q = Inl IndexError))"
proof -
  have "score_policy profile p = Inl ZeroDivisionError"
    using assms(3,4,1) by (rule score_policy_zero_band)
  then have "score_policy profile p \<noteq> Inl TypeError"
    by simp
  with assms(2) have "\<not> (\<forall>q \<in> set (eligible_policies catalog profile).
      score_policy profile q = Inl TypeError)"
    by blast
  with score_policies_zero_band [OF assms(1), of "eligible_policies catalog profile"]
  show ?thesis
    by (auto simp: get_quote_def)
qed

section \<open>Ranking and truncation\<close>

text \<open>
  Claim C6. The scored entries are in catalog order. The sort puts them in descending
  order of score and is stable: it permutes the entries, the entries of any one score keep
  their order, and of two entries with equal scores the one scored earlier (the one earlier
  in the catalog) is still ahead of the other in the sorted list, of which the response is
  the first three policies.
\<close>

theorem ranking_stable:
  assumes "score_policies profile (eligible_policies catalog profile) = Inr scored"
  shows "subseq (map policy scored) catalog
    \<and> get_quote catalog profile = Inr (map policy (take 3 (sorted_reverse score scored)))
    \<and> sorted_wrt (\<lambda>a b. score b \<le> score a) (sorted_reverse score scored)
    \<and> mset (sorted_reverse score scored) = mset scored
    \<and> (\<forall>v. filter (\<lambda>e. score e = v) (sorted_reverse score scored)
             = filter (\<lambda>e. score e = v) scored)
    \<and> (\<forall>a b. subseq [a, b] scored \<and> score a = score b
             \<longrightarrow> subseq [a, b] (sorted_reverse score scored))"
proof (intro conjI allI impI)
  have "subseq (map policy scored) (eligible_policies catalog profile)"
    using assms by (rule score_policies_subseq)
  moreover have "subseq (eligible_policies catalog profile) catalog"
    by (simp add: eligible_policies_filter)
  ultimately show "subseq (map policy scored) catalog"
    by (rule subseq_order.order_trans)
next
  show "get_quote catalog profile = Inr (map policy (take 3 (sorted_reverse score scored)))"
    using assms by (simp add: get_quote_def)
next
  show "sorted_wrt (\<lambda>a b. score b \<le> score a) (sorted_reverse score scored)"
    by (rule descending_sorted_reverse)
next
  show "mset (sorted_reverse score scored) = mset scored"
    by (rule mset_sorted_reverse)
next
  fix v
  show "filter (\<lambda>e. score e = v) (sorted_reverse score scored) = filter (\<lambda>e. score e = v) scored"
    by (rule stable_sorted_reverse)
next
  fix a b :: scored_policy
  assume "subseq [a, b] scored \<and> score a = score b"
  then show "subseq [a, b] (sorted_reverse score scored)"
    by (simp add: pair_order_sorted_reverse)
qed

lemma scored_ties:
  "score_policies scenario_A_profile
     (eligible_policies [scenario_C_policy, text_premium_policy, scenario_A_policy, travel_policy]
        scenario_A_profile)
   = Inr [\<lparr>policy = scenario_C_policy, score = 0\<rparr>, \<lparr>policy = scenario_A_policy, score = 5\<rparr>,
          \<lparr>policy = travel_policy, score = 0\<rparr>]"
  by (simp add: eligible_policies_filter in_age_bounds_30 profile_fields
      scores_scenario_A_profile)

theorem ranking_stable_witness:
  "score_policies scenario_A_profile
     (eligible_policies [scenario_C_policy, text_premium_policy, scenario_A_policy, travel_policy]
        scenario_A_profile)
   = Inr [\<lparr>policy = scenario_C_policy, score = 0\<rparr>, \<lparr>policy = scenario_A_policy, score = 5\<rparr>,
          \<lparr>policy = travel_policy, score = 0\<rparr>]
   \<and> subseq [\<lparr>policy = scenario_C_policy, score = 0\<rparr>, \<lparr>policy = travel_policy, score = 0\<rparr>]
        [\<lparr>policy = scenario_C_policy, score = 0\<rparr>, \<lparr>policy = scenario_A_policy, score = 5\<rparr>,
         \<lparr>policy = travel_policy, score = 0\<rparr>]
   \<and> score \<lparr>policy = scenario_C_policy, score = 0\<rparr> = score \<lparr>policy = travel_policy, score = 0\<rparr>
   \<and> subseq [\<lparr>policy = scenario_C_policy, score = 0\<rparr>, \<lparr>policy = travel_policy, score = 0\<rparr>]
        (sorted_reverse score
          [\<lparr>policy = scenario_C_policy, score = 0\<rparr>, \<lparr>policy = scenario_A_policy, score = 5\<rparr>,
           \<lparr>policy = travel_policy, score = 0\<rparr>])
   \<and> get_quote [scenario_C_policy, text_premium_policy, scenario_A_policy, travel_policy]
        scenario_A_profile
       = Inr [scenario_A_policy, scenario_C_policy, travel_policy]"
proof -
  let ?c = "\<lparr>policy = scenario_C_policy, score = 0\<rparr>"
  let ?a = "\<lparr>policy = scenario_A_policy, score = 5\<rparr>"
  let ?t = "\<lparr>policy = travel_policy, score = 0\<rparr>"
  have sub: "subseq [?c, ?t] [?c, ?a, ?t]"
    by simp
  have eq: "score ?c = score ?t"
    by simp
  note r = ranking_stable [OF scored_ties]
  from r have "\<forall>a b. subseq [a, b] [?c, ?a, ?t] \<and> score a = score b
      \<longrightarrow> subseq [a, b] (sorted_reverse score [?c, ?a, ?t])"
    by (elim conjE)
  with sub eq have st: "subseq [?c, ?t] (sorted_reverse score [?c, ?a, ?t])"
    by blast
  from r have "get_quote [scenario_C_policy, text_premium_policy, scenario_A_policy, travel_policy]
        scenario_A_profile = Inr (map policy (take 3 (sorted_reverse score [?c, ?a, ?t])))"
    by (elim conjE)
  then have q: "get_quote [scenario_C_policy, text_premium_policy, scenario_A_policy, travel_policy]
        scenario_A_profile = Inr [scenario_A_policy, scenario_C_policy, travel_policy]"
    by simp
  show ?thesis
    by (rule conjI [OF scored_ties conjI [OF sub conjI [OF eq conjI [OF st q]]]])
qed

text \<open>
  Claim C7. Whenever \<open>get_quote\<close> returns, it returns at most 3 recommendations: the
  policies of the first 3 entries of the sorted scored list, which are all of them when
  fewer than 3 policies were scored.
\<close>

theorem truncation_bound:
  assumes "get_quote catalog profile = Inr recs"
  shows "length recs \<le> 3
    \<and> (\<exists>scored. score_policies profile (eligible_policies catalog profile) = Inr scored
          \<and> recs = map policy (take 3 (sorted_reverse score scored))
          \<and> length recs = min 3 (length scored))"
proof -
  from assms obtain scored
    where s: "score_policies profile (eligible_policies catalog profile) = Inr scored"
      and r: "recs = map policy (take 3 (sorted_reverse score scored))"
    by (rule get_quote_Inr)
  from r have l: "length recs = min 3 (length scored)"
    by (simp add: length_sorted_reverse min.commute)
  then have "length recs \<le> 3"
    by simp
  with s r l show ?thesis
    by blast
qed

theorem truncation_bound_witness:
  "get_quote [scenario_C_policy, text_premium_policy, ulip_policy, scenario_A_policy, travel_policy]
     scenario_A_profile = Inr [scenario_A_policy, ulip_policy, scenario_C_policy]
   \<and> length [scenario_A_policy, ulip_policy, scenario_C_policy] \<le> 3
   \<and> get_quote [scenario_A_policy] scenario_A_profile = Inr [scenario_A_policy]
   \<and> length [scenario_A_policy] \<le> 3"
proof -
  have 1: "length [scenario_A_policy, ulip_policy, scenario_C_policy] \<le> 3"
    using truncation_bound [OF quote_four] by (elim conjE)
  have 2: "length [scenario_A_policy] \<le> 3"
    using truncation_bound [OF quote_A] by (elim conjE)
  show ?thesis
    by (rule conjI [OF quote_four conjI [OF 1 conjI [OF quote_A 2]]])
qed

section \<open>Risk bonuses\<close>

text \<open>
  Claim C8 as stated fails: no profile and policy satisfy the conditions of both
  risk-tolerance statements, since one requires the risk tolerance to be \<open>Low\<close> and the other
  requires it to be \<open>High\<close>.
\<close>

theorem risk_bonuses_stack_counterexample:
  "\<not> (\<exists>profile p. low_risk_match profile p \<and> high_risk_match profile p)"
  by (simp add: risk_matches_exclusive)

text \<open>
  Claim C8, amended. The two risk bonuses are separate additive terms of the score, 2 for
  \<open>Low\<close> with a life or health policy and 3 for \<open>High\<close> with \<open>ULIP\<close> in the name, and they
  exclude each other: the risk bonus of a scored policy is 0, 2 or 3, on top of the 0, 1 or
  3 points for the premium.
\<close>

theorem risk_bonuses_exclusive:
  "\<not> (low_risk_match profile p \<and> high_risk_match profile p)
   \<and> (score_policy profile p = Inr s \<longrightarrow>
        (\<exists>premium_points \<in> {0, 1, 3}. \<exists>risk_points \<in> {0, 2, 3}.
           risk_points = (if low_risk_match profile p then 2 else 0)
                       + (if high_risk_match profile p then 3 else 0)
           \<and> s = premium_points + risk_points))"
proof (intro conjI impI)
  show "\<not> (low_risk_match profile p \<and> high_risk_match profile p)"
    by (rule risk_matches_exclusive)
next
  assume "score_policy profile p = Inr s"
  then obtain ref diff where
    s: "s = (if float_lt diff literal_0_2 then 3 else if float_lt diff literal_0_5 then 1 else 0)
           + (if low_risk_match profile p then 2 else 0)
           + (if high_risk_match profile p then 3 else 0)"
    by (rule score_policy_Inr)
  let ?pp = "if float_lt diff literal_0_2 then 3 else if float_lt diff literal_0_5 then 1 else (0::int)"
  let ?rp = "(if low_risk_match profile p then 2 else 0)
           + (if high_risk_match profile p then 3 else (0::int))"
  have "?pp \<in> {0, 1, 3}"
    by simp
  moreover have "?rp \<in> {0, 2, 3}"
    using risk_matches_exclusive [of profile p] by auto
  moreover have "s = ?pp + ?rp"
    using s by simp
  ultimately show "\<exists>premium_points \<in> {0, 1, 3}. \<exists>risk_points \<in> {0, 2, 3}.
           risk_points = (if low_risk_match profile p then 2 else 0)
                       + (if high_risk_match profile p then 3 else 0)
           \<and> s = premium_points + risk_points"
    by blast
qed

theorem risk_bonuses_exclusive_witness:
  "score_policy high_risk_profile ulip_policy = Inr 4
   \<and> high_risk_match high_risk_profile ulip_policy
   \<and> \<not> low_risk_match high_risk_profile ulip_policy
   \<and> (\<exists>premium_points \<in> {0, 1, 3}. \<exists>risk_points \<in> {0, 2, 3}.
         risk_points = (if low_risk_match high_risk_profile ulip_policy then 2 else 0)
                     + (if high_risk_match high_risk_profile ulip_policy then 3 else 0)
         \<and> (4::int) = premium_points + risk_points)"
proof -
  have h: "high_risk_match high_risk_profile ulip_policy"
    by (simp add: high_risk_eval profile_fields)
  note r = risk_bonuses_exclusive [of high_risk_profile ulip_policy 4]
  from r h have l: "\<not> low_risk_match high_risk_profile ulip_policy"
    by blast
  from r scores_high_risk_profile(1)
  have e: "\<exists>premium_points \<in> {0, 1, 3}. \<exists>risk_points \<in> {0, 2, 3}.
         risk_points = (if low_risk_match high_risk_profile ulip_policy then 2 else 0)
                     + (if high_risk_match high_risk_profile ulip_policy then 3 else 0)
         \<and> (4::int) = premium_points + risk_points"
    by blast
  show ?thesis
    by (rule conjI [OF scores_high_risk_profile(1) conjI [OF h conjI [OF l e]]])
qed

section \<open>Determinism\<close>

text \<open>
  The eligibility loop appends the eligible policies, in order, to the list it finds,
  and touches no other variable.
\<close>

lemma eligibility_loop_appends:
  "eligibility_loop ps profile vs =
     vs\<lparr>var_eligible_policies := var_eligible_policies vs @ eligible_policies ps profile\<rparr>"
  by (induction ps arbitrary: vs) (simp_all add: Let_def)

text \<open>
  The scoring loop appends the scored entries to the list it finds; when it ends in an
  exception, the catalog is as it was.
\<close>

lemma scoring_loop_appends:
  "score_policies profile ps = Inr scored \<Longrightarrow>
     scoring_loop ps profile vs =
       Inr (vs\<lparr>var_scored_policies := var_scored_policies vs @ scored\<rparr>)"
proof (induction ps arbitrary: vs scored)
  case Nil
  then show ?case by simp
next
  case (Cons p ps)
  show ?case
  proof (cases "score_policy profile p")
    case (Inl e)
    with Cons.prems have "e = ValueError \<or> e = TypeError" and "score_policies profile ps = Inr scored"
      by (simp_all split: if_splits)
    with Inl Cons.IH [of scored vs] show ?thesis by simp
  next
    case (Inr s)
    with Cons.prems obtain rest where rest: "score_policies profile ps = Inr rest"
      and scored: "scored = \<lparr>policy = p, score = s\<rparr> # rest"
      by (auto split: sum.splits)
    from Inr Cons.IH [OF rest] scored show ?thesis by simp
  qed
qed

lemma scoring_loop_raises:
  "score_policies profile ps = Inl e \<Longrightarrow>
     \<exists>vs'. scoring_loop ps profile vs = Inl (e, vs')
          \<and> var_policies_data vs' = var_policies_data vs"
proof (induction ps arbitrary: vs)
  case Nil
  then show ?case by simp
next
  case (Cons p ps)
  show ?case
  proof (cases "score_policy profile p")
    case (Inl e')
    show ?thesis
    proof (cases "e' = ValueError \<or> e' = TypeError")
      case True
      with Inl Cons.prems have "score_policies profile ps = Inl e" by simp
      from Cons.IH [OF this, of vs] Inl True show ?thesis by simp
    next
      case False
      with Inl Cons.prems have "e' = e" by simp
      with Inl False show ?thesis by simp
    qed
  next
    case (Inr s)
    with Cons.prems have "score_policies profile ps = Inl e"
      by (simp split: sum.splits)
    from Cons.IH [OF this,
        of "vs\<lparr>var_scored_policies := var_scored_policies vs @ [\<lparr>policy = p, score = s\<rparr>]\<rparr>"]
      Inr show ?thesis by simp
  qed
qed

text \<open>The program computes \<open>get_quote\<close> of the catalog it finds, and leaves the catalog.\<close>

lemma run_get_quote_result:
  "fst (run_get_quote vs profile) = get_quote (var_policies_data vs) profile"
proof (cases "score_policies profile (eligible_policies (var_policies_data vs) profile)")
  case (Inl e)
  from scoring_loop_raises [OF Inl,
      of "vs\<lparr>var_eligible_policies := eligible_policies (var_policies_data vs) profile,
             var_scored_policies := []\<rparr>"]
  obtain vs' where "scoring_loop (eligible_policies (var_policies_data vs) profile) profile
      (vs\<lparr>var_eligible_policies := eligible_policies (var_policies_data vs) profile,
          var_scored_policies := []\<rparr>) = Inl (e, vs')"
    by blast
  then show ?thesis
    by (simp add: run_get_quote_def Let_def eligibility_loop_appends get_quote_def Inl)
next
  case (Inr scored)
  from scoring_loop_appends [OF Inr] show ?thesis
    by (simp add: run_get_quote_def Let_def eligibility_loop_appends get_quote_def Inr)
qed

lemma run_get_quote_catalog:
  "var_policies_data (snd (run_get_quote vs profile)) = var_policies_data vs"
proof (cases "score_policies profile (eligible_policies (var_policies_data vs) profile)")
  case (Inl e)
  from scoring_loop_raises [OF Inl,
      of "vs\<lparr>var_eligible_policies := eligible_policies (var_policies_data vs) profile,
             var_scored_policies := []\<rparr>"]
  obtain vs' where "scoring_loop (eligible_policies (var_policies_data vs) profile) profile
      (vs\<lparr>var_eligible_policies := eligible_policies (var_policies_data vs) profile,
          var_scored_policies := []\<rparr>) = Inl (e, vs')"
    and "var_policies_data vs' = var_policies_data vs"
    by auto
  then show ?thesis
    by (simp add: run_get_quote_def Let_def eligibility_loop_appends)
next
  case (Inr scored)
  from scoring_loop_appends [OF Inr] show ?thesis
    by (simp add: run_get_quote_def Let_def eligibility_loop_appends)
qed

text \<open>
  Claim C9. Running the handler on any state of its variables gives the response that
  \<open>get_quote\<close> computes from the catalog and the profile alone; it leaves the catalog as
  it was; and running it again, on the variables the first run has left, gives the same
  response.
\<close>

theorem quote_deterministic:
  "fst (run_get_quote vs profile) = get_quote (var_policies_data vs) profile
   \<and> var_policies_data (snd (run_get_quote vs profile)) = var_policies_data vs
   \<and> fst (run_get_quote (snd (run_get_quote vs profile)) profile)
       = fst (run_get_quote vs profile)"
proof (intro conjI)
  show "fst (run_get_quote vs profile) = get_quote (var_policies_data vs) profile"
    by (rule run_get_quote_result)
  show "var_policies_data (snd (run_get_quote vs profile)) = var_policies_data vs"
    by (rule run_get_quote_catalog)
  have "fst (run_get_quote (snd (run_get_quote vs profile)) profile)
      = get_quote (var_policies_data (snd (run_get_quote vs profile))) profile"
    by (rule run_get_quote_result)
  also have "\<dots> = get_quote (var_policies_data vs) profile"
    by (simp only: run_get_quote_catalog)
  also have "\<dots> = fst (run_get_quote vs profile)"
    by (rule run_get_quote_result [symmetric])
  finally show "fst (run_get_quote (snd (run_get_quote vs profile)) profile)
      = fst (run_get_quote vs profile)" .
qed

text \<open>Two runs on the catalog of Scenario A, the second on the variables left by the first.\<close>

lemma run_A:
  "run_get_quote
     \<lparr>var_policies_data = [scenario_A_policy], var_eligible_policies = [],
      var_scored_policies = []\<rparr> scenario_A_profile
   = (Inr [scenario_A_policy],
      \<lparr>var_policies_data = [scenario_A_policy], var_eligible_policies = [scenario_A_policy],
       var_scored_policies = [\<lparr>policy = scenario_A_policy, score = 5\<rparr>]\<rparr>)"
  by (simp add: run_get_quote_def Let_def eligibility_loop_appends eligible_policies_filter
      in_age_bounds_30 profile_fields scores_scenario_A_profile)

theorem quote_deterministic_witness:
  "run_get_quote
     \<lparr>var_policies_data = [scenario_A_policy], var_eligible_policies = [],
      var_scored_policies = []\<rparr> scenario_A_profile
   = (Inr [scenario_A_policy],
      \<lparr>var_policies_data = [scenario_A_policy], var_eligible_policies = [scenario_A_policy],
       var_scored_policies = [\<lparr>policy = scenario_A_policy, score = 5\<rparr>]\<rparr>)
   \<and> fst (run_get_quote
       \<lparr>var_policies_data = [scenario_A_policy], var_eligible_policies = [scenario_A_policy],
        var_scored_policies = [\<lparr>policy = scenario_A_policy, score = 5\<rparr>]\<rparr> scenario_A_profile)
     = Inr [scenario_A_policy]"
proof -
  let ?vs = "\<lparr>var_policies_data = [scenario_A_policy], var_eligible_policies = [],
      var_scored_policies = []\<rparr>"
  from quote_deterministic [of ?vs scenario_A_profile]
  have "fst (run_get_quote (snd (run_get_quote ?vs scenario_A_profile)) scenario_A_profile)
      = fst (run_get_quote ?vs scenario_A_profile)"
    by (elim conjE)
  then have "fst (run_get_quote
       \<lparr>var_policies_data = [scenario_A_policy], var_eligible_policies = [scenario_A_policy],
        var_scored_policies = [\<lparr>policy = scenario_A_policy, score = 5\<rparr>]\<rparr> scenario_A_profile)
     = Inr [scenario_A_policy]"
    by (simp only: run_A fst_conv snd_conv)
  with run_A show ?thesis
    by (rule conjI)
qed

section \<open>Negative premium band\<close>










end
